theory Spec2Isabelle
  imports Complex_Main "HOL-Library.AList"
begin

section \<open>Platform model\<close>

text \<open>
  Timestamps are the integer millisecond values of \<^verbatim>\<open>Date.now()\<close>. The source reads the
  clock at many places and nothing guarantees that two readings agree, so the clock
  is a sequence of future readings: \<open>clk 0\<close> is what the next call of
  \<^verbatim>\<open>Date.now()\<close> returns, and the call consumes it.
\<close>

type_synonym clock = "nat \<Rightarrow> int"

definition Date_now :: "clock \<Rightarrow> int \<times> clock" where
  "Date_now clk = (clk 0, \<lambda>k. clk (Suc k))"

text \<open>
  A JavaScript \<^verbatim>\<open>Map\<close> keeps its entries in insertion order: \<^verbatim>\<open>set\<close> on
  a key that is present replaces the value in place, \<^verbatim>\<open>set\<close> on a new key appends,
  \<^verbatim>\<open>delete\<close> removes the entry and says whether there was one.
\<close>

type_synonym ('k, 'v) jsmap = "('k \<times> 'v) list"

definition Map_get :: "('k, 'v) jsmap \<Rightarrow> 'k \<Rightarrow> 'v option" where
  "Map_get m k = map_of m k"

definition Map_has :: "('k, 'v) jsmap \<Rightarrow> 'k \<Rightarrow> bool" where
  "Map_has m k = (map_of m k \<noteq> None)"

definition Map_set :: "'k \<Rightarrow> 'v \<Rightarrow> ('k, 'v) jsmap \<Rightarrow> ('k, 'v) jsmap" where
  "Map_set k v m = AList.update k v m"

definition Map_delete :: "'k \<Rightarrow> ('k, 'v) jsmap \<Rightarrow> bool \<times> ('k, 'v) jsmap" where
  "Map_delete k m = (Map_has m k, AList.delete k m)"

section \<open>Nonce ledger (lib/attacks/replay.ts)\<close>

record NonceRecord =
  nonce :: string
  usedAt :: int
  count :: int

type_synonym usedNonces = "(string, NonceRecord) jsmap"

definition isReplay :: "usedNonces \<Rightarrow> string \<Rightarrow> bool" where
  "isReplay usedNonces n =
     (case Map_get usedNonces n of
        None \<Rightarrow> False
      | Some record \<Rightarrow> count record > 0)"

definition markNonceUsed :: "usedNonces \<Rightarrow> string \<Rightarrow> clock \<Rightarrow> usedNonces \<times> clock" where
  "markNonceUsed usedNonces n clk =
     (case Map_get usedNonces n of
        Some record \<Rightarrow>
          (let (t, clk1) = Date_now clk
           in (Map_set n (record\<lparr>count := count record + 1, usedAt := t\<rparr>) usedNonces, clk1))
      | None \<Rightarrow>
          (let (t, clk1) = Date_now clk
           in (Map_set n \<lparr>nonce = n, usedAt = t, count = 1\<rparr> usedNonces, clk1)))"

text \<open>
  A history of the ledger: the calls made on the module, in order. The module starts
  with \<^verbatim>\<open>new Map()\<close>, the empty ledger. \<open>isReplay\<close> has no access to anything but
  a lookup, so its step hands the ledger and the clock on as they are.
\<close>

datatype ledger_op = IsReplay string | MarkNonceUsed string

fun ledger_step :: "usedNonces \<times> clock \<Rightarrow> ledger_op \<Rightarrow> usedNonces \<times> clock" where
  "ledger_step (l, clk) (IsReplay t) = (let r = isReplay l t in (l, clk))"
| "ledger_step (l, clk) (MarkNonceUsed t) = markNonceUsed l t clk"

definition ledger_run :: "usedNonces \<times> clock \<Rightarrow> ledger_op list \<Rightarrow> usedNonces \<times> clock" where
  "ledger_run s ops = foldl ledger_step s ops"

definition is_mark :: "ledger_op \<Rightarrow> bool" where
  "is_mark x = (case x of MarkNonceUsed t \<Rightarrow> True | IsReplay t \<Rightarrow> False)"

text \<open>Every record of the ledger has been used at least once.\<close>

definition ledger_inv :: "usedNonces \<Rightarrow> bool" where
  "ledger_inv l = list_all (\<lambda>(k, r). 1 \<le> count r) l"

section \<open>Verification service (lib/verificationService.ts)\<close>

text \<open>
  The hash comes from the platform (\<^verbatim>\<open>crypto.subtle.digest\<close>): the service only
  compares its result, so \<open>sha256\<close> is a parameter, and a rejected promise is the error
  \<open>CryptoUnavailable\<close>, which an \<^verbatim>\<open>await\<close> hands on to the caller.
\<close>

datatype error = CryptoUnavailable

datatype AttackType = Tamper | Replay | Mitm | BruteForce

record AttackDetection =
  detected :: bool
  attackType :: "AttackType option"
  confidence :: rat
  evidence :: "string list"
  timestamp :: int

datatype OverallStatus = SAFE | SUSPICIOUS | COMPROMISED

record Checks =
  integrityCheck :: bool
  signatureCheck :: bool
  replayCheck :: bool
  freshnessCheck :: bool
  timeSyncCheck :: bool

record VerificationReport =
  messageId :: string
  timestamp_report :: int
  checks :: Checks
  detectedAttacks :: "AttackDetection list"
  overallStatus :: OverallStatus
  riskScore :: int

record HashCheck =
  valid :: bool
  actualHash :: string

record NonceCheck =
  isFresh :: bool
  isReplayed :: bool

record TimestampCheck =
  isFresh_ts :: bool
  age :: int
  maxAge :: int

record ClockSyncCheck =
  synchronized :: bool
  skew :: int
  maxSkew :: int

definition MAX_CLOCK_SKEW_MS :: int where
  "MAX_CLOCK_SKEW_MS = 5000"

definition MESSAGE_MAX_AGE_MS :: int where
  "MESSAGE_MAX_AGE_MS = 3600000"

definition verifyHash :: "(string \<Rightarrow> error + string) \<Rightarrow> string \<Rightarrow> string \<Rightarrow> error + HashCheck" where
  "verifyHash sha256 message expectedHash =
     (case sha256 message of
        Inl e \<Rightarrow> Inl e
      | Inr h \<Rightarrow> Inr \<lparr>valid = (h = expectedHash), actualHash = h\<rparr>)"

definition checkNonceFreshness :: "usedNonces \<Rightarrow> string \<Rightarrow> NonceCheck" where
  "checkNonceFreshness usedNonces n =
     (let r = isReplay usedNonces n in \<lparr>isFresh = \<not> r, isReplayed = r\<rparr>)"

text \<open>An absent optional argument is \<open>None\<close>; its default is evaluated at the call.\<close>

definition checkTimestampFreshness :: "int \<Rightarrow> int option \<Rightarrow> clock \<Rightarrow> TimestampCheck \<times> clock" where
  "checkTimestampFreshness messageTimestamp maxAgeArg clk =
     (let m = (case maxAgeArg of None \<Rightarrow> MESSAGE_MAX_AGE_MS | Some v \<Rightarrow> v);
          (now, clk1) = Date_now clk;
          a = now - messageTimestamp
      in (\<lparr>isFresh_ts = (a < m \<and> a \<ge> 0), age = a, maxAge = m\<rparr>, clk1))"

definition checkClockSync :: "int \<Rightarrow> int option \<Rightarrow> clock \<Rightarrow> ClockSyncCheck \<times> clock" where
  "checkClockSync senderTimestamp receiverArg clk =
     (let (receiverTimestamp, clk1) =
            (case receiverArg of None \<Rightarrow> Date_now clk | Some v \<Rightarrow> (v, clk));
          s = \<bar>receiverTimestamp - senderTimestamp\<bar>
      in (\<lparr>synchronized = (s \<le> MAX_CLOCK_SKEW_MS), skew = s, maxSkew = MAX_CLOCK_SKEW_MS\<rparr>,
          clk1))"

definition detectTampering :: "string \<Rightarrow> string \<Rightarrow> clock \<Rightarrow> AttackDetection \<times> clock" where
  "detectTampering originalHash receivedHash clk =
     (let d = (originalHash \<noteq> receivedHash);
          (t, clk1) = Date_now clk
      in (\<lparr>detected = d,
           attackType = Some Tamper,
           confidence = (if d then 1 else 0),
           evidence =
             (if d
              then [''Hash mismatch: '' @ originalHash @ '' != '' @ receivedHash,
                    ''Ciphertext integrity violated'']
              else []),
           timestamp = t\<rparr>, clk1))"

definition detectReplay :: "usedNonces \<Rightarrow> string \<Rightarrow> clock \<Rightarrow> AttackDetection \<times> clock" where
  "detectReplay usedNonces n clk =
     (let isReplayedNonce = isReplay usedNonces n;
          (t, clk1) = Date_now clk
      in (\<lparr>detected = isReplayedNonce,
           attackType = Some Replay,
           confidence = (if isReplayedNonce then 1 else 0),
           evidence =
             (if isReplayedNonce
              then [''Nonce reuse detected: '' @ n, ''Message has been replayed'']
              else []),
           timestamp = t\<rparr>, clk1))"

definition detectMITM :: "bool \<Rightarrow> string \<Rightarrow> clock \<Rightarrow> AttackDetection \<times> clock" where
  "detectMITM signatureValid expectedSender clk =
     (let d = (\<not> signatureValid);
          (t, clk1) = Date_now clk
      in (\<lparr>detected = d,
           attackType = Some Mitm,
           confidence = (if d then 9 / 10 else 0),
           evidence =
             (if d
              then [''Signature verification failed for sender: '' @ expectedSender,
                    ''Message may have been intercepted or modified by third party'']
              else []),
           timestamp = t\<rparr>, clk1))"

text \<open>
  The report. The ledger is only read. The clock is read once for the report's own
  timestamp, once by each of the two time checks and once by each detection that
  fires, in this order.
\<close>

definition generateVerificationReport ::
  "(string \<Rightarrow> error + string) \<Rightarrow> usedNonces \<Rightarrow> string \<Rightarrow> string \<Rightarrow> string \<Rightarrow> string \<Rightarrow> int
     \<Rightarrow> bool option \<Rightarrow> clock \<Rightarrow> (error + VerificationReport) \<times> clock" where
  "generateVerificationReport sha256 usedNonces mId message messageHash n messageTimestamp
       signatureValid clk =
     (let (now, clk1) = Date_now clk
      in case verifyHash sha256 message messageHash of
           Inl e \<Rightarrow> (Inl e, clk1)
         | Inr integrity \<Rightarrow>
             (let replayC = checkNonceFreshness usedNonces n;
                  (freshness, clk2) = checkTimestampFreshness messageTimestamp None clk1;
                  (timeSync, clk3) = checkClockSync messageTimestamp None clk2;
                  (attacks1, score1, clk4) =
                    (if \<not> valid integrity
                     then (let (d, c) = detectTampering (actualHash integrity) messageHash clk3
                           in ([] @ [d], 0 + 35, c))
                     else ([], 0, clk3));
                  (attacks2, score2, clk5) =
                    (if isReplayed replayC
                     then (let (d, c) = detectReplay usedNonces n clk4
                           in (attacks1 @ [d], score1 + 30, c))
                     else (attacks1, score1, clk4));
                  score3 = (if \<not> isFresh_ts freshness then score2 + 15 else score2);
                  score4 = (if \<not> synchronized timeSync then score3 + 10 else score3);
                  (attacks5, score5, clk6) =
                    (if signatureValid = Some False
                     then (let (d, c) = detectMITM False ''unknown'' clk5
                           in (attacks2 @ [d], score4 + 20, c))
                     else (attacks2, score4, clk5));
                  score = min score5 100;
                  status =
                    (if score > 70 then COMPROMISED
                     else if score > 30 then SUSPICIOUS
                     else SAFE)
              in (Inr \<lparr>messageId = mId,
                       timestamp_report = now,
                       checks =
                         \<lparr>integrityCheck = valid integrity,
                          signatureCheck = (case signatureValid of None \<Rightarrow> False | Some b \<Rightarrow> b),
                          replayCheck = isFresh replayC,
                          freshnessCheck = isFresh_ts freshness,
                          timeSyncCheck = synchronized timeSync\<rparr>,
                       detectedAttacks = attacks5,
                       overallStatus = status,
                       riskScore = score\<rparr>, clk6)))"

text \<open>
  The checks of the specification's table, as a set: which of them fail for a call
  whose recomputed digest is \<open>h\<close>. The freshness check sees the second reading of the
  clock and the clock-sync check the third.
\<close>

datatype check = Integrity | ReplayCheck | Freshness | ClockSync | Signature

definition failing_checks ::
  "string \<Rightarrow> usedNonces \<Rightarrow> string \<Rightarrow> string \<Rightarrow> int \<Rightarrow> bool option \<Rightarrow> clock \<Rightarrow> check set" where
  "failing_checks h usedNonces messageHash n messageTimestamp signatureValid clk =
     (if h \<noteq> messageHash then {Integrity} else {})
     \<union> (if isReplay usedNonces n then {ReplayCheck} else {})
     \<union> (if clk 1 - messageTimestamp \<ge> 3600000 \<or> clk 1 - messageTimestamp < 0
         then {Freshness} else {})
     \<union> (if \<bar>clk 2 - messageTimestamp\<bar> > 5000 then {ClockSync} else {})
     \<union> (if signatureValid = Some False then {Signature} else {})"

definition weight :: "check \<Rightarrow> int" where
  "weight c = (case c of Integrity \<Rightarrow> 35 | ReplayCheck \<Rightarrow> 30 | Freshness \<Rightarrow> 15
                 | ClockSync \<Rightarrow> 10 | Signature \<Rightarrow> 20)"

text \<open>The score before the cap, from the five conditions in the order of the source.\<close>

definition score_of :: "bool \<Rightarrow> bool \<Rightarrow> bool \<Rightarrow> bool \<Rightarrow> bool \<Rightarrow> int" where
  "score_of a b c d e =
     (if a then 35 else 0) + (if b then 30 else 0) + (if c then 15 else 0)
     + (if d then 10 else 0) + (if e then 20 else 0)"

section \<open>Key store and session manager (keyManagement.ts, in lib/encryptionStrategy.ts)\<close>

text \<open>
  Template literals print a clock reading in decimal. A value that JavaScript takes
  for false in \<^verbatim>\<open>x || y\<close> and \<^verbatim>\<open>if (x)\<close> is, for an optional string, the absent
  one and the empty one.
\<close>

definition digit :: "nat \<Rightarrow> char" where
  "digit d = ''0123456789'' ! d"

function digits :: "nat \<Rightarrow> string" where
  "digits n = (if n < 10 then [digit n] else digits (n div 10) @ [digit (n mod 10)])"
  by pat_completeness auto
termination
  by (relation "measure (\<lambda>n. n)") auto

declare digits.simps [simp del]

definition String_of :: "int \<Rightarrow> string" where
  "String_of i = (if i < 0 then ''-'' @ digits (nat (- i)) else digits (nat i))"

text \<open>
  Key material is an opaque handle of the platform. The four generators are calls into
  the platform that may fail; what a call returns is a parameter of the function that
  makes it.
\<close>

datatype CryptoKey = CryptoKey nat

datatype KeyType = RSA_ENCRYPT | RSA_SIGN | AES | ECDH

record StoredKeyPair =
  id_key :: string
  type_key :: KeyType
  publicKey :: "CryptoKey option"
  privateKey :: "CryptoKey option"
  symmetricKey :: "CryptoKey option"
  createdAt :: int
  expiresAt :: int

type_synonym keys = "(string, StoredKeyPair) jsmap"

definition DEFAULT_KEY_LIFESPAN_MS :: int where
  "DEFAULT_KEY_LIFESPAN_MS = 3600000"

definition generateAndStoreRSAEncryptionKeys ::
  "keys \<Rightarrow> error + CryptoKey \<times> CryptoKey \<Rightarrow> string option \<Rightarrow> clock
     \<Rightarrow> (error + string \<times> CryptoKey) \<times> keys \<times> clock" where
  "generateAndStoreRSAEncryptionKeys ks generateRSAEncryptionKeys keyId clk =
     (let (i, clk1) =
            (case keyId of
               Some k \<Rightarrow>
                 if k \<noteq> [] then (k, clk)
                 else (let (t, c) = Date_now clk in (''rsa-enc-'' @ String_of t, c))
             | None \<Rightarrow> (let (t, c) = Date_now clk in (''rsa-enc-'' @ String_of t, c)))
      in case generateRSAEncryptionKeys of
           Inl e \<Rightarrow> (Inl e, ks, clk1)
         | Inr (pub, priv) \<Rightarrow>
             (let (tc, clk2) = Date_now clk1;
                  (te, clk3) = Date_now clk2
              in (Inr (i, pub),
                  Map_set i \<lparr>id_key = i, type_key = RSA_ENCRYPT, publicKey = Some pub,
                             privateKey = Some priv, symmetricKey = None, createdAt = tc,
                             expiresAt = te + DEFAULT_KEY_LIFESPAN_MS\<rparr> ks,
                  clk3)))"

definition generateAndStoreRSASignatureKeys ::
  "keys \<Rightarrow> error + CryptoKey \<times> CryptoKey \<Rightarrow> string option \<Rightarrow> clock
     \<Rightarrow> (error + string \<times> CryptoKey) \<times> keys \<times> clock" where
  "generateAndStoreRSASignatureKeys ks generateRSASignatureKeys keyId clk =
     (let (i, clk1) =
            (case keyId of
               Some k \<Rightarrow>
                 if k \<noteq> [] then (k, clk)
                 else (let (t, c) = Date_now clk in (''rsa-sign-'' @ String_of t, c))
             | None \<Rightarrow> (let (t, c) = Date_now clk in (''rsa-sign-'' @ String_of t, c)))
      in case generateRSASignatureKeys of
           Inl e \<Rightarrow> (Inl e, ks, clk1)
         | Inr (pub, priv) \<Rightarrow>
             (let (tc, clk2) = Date_now clk1;
                  (te, clk3) = Date_now clk2
              in (Inr (i, pub),
                  Map_set i \<lparr>id_key = i, type_key = RSA_SIGN, publicKey = Some pub,
                             privateKey = Some priv, symmetricKey = None, createdAt = tc,
                             expiresAt = te + DEFAULT_KEY_LIFESPAN_MS\<rparr> ks,
                  clk3)))"

definition generateAndStoreECDHKeyPair ::
  "keys \<Rightarrow> error + CryptoKey \<times> CryptoKey \<Rightarrow> string option \<Rightarrow> clock
     \<Rightarrow> (error + string \<times> CryptoKey) \<times> keys \<times> clock" where
  "generateAndStoreECDHKeyPair ks generateDHKeyPair keyId clk =
     (let (i, clk1) =
            (case keyId of
               Some k \<Rightarrow>
                 if k \<noteq> [] then (k, clk)
                 else (let (t, c) = Date_now clk in (''ecdh-'' @ String_of t, c))
             | None \<Rightarrow> (let (t, c) = Date_now clk in (''ecdh-'' @ String_of t, c)))
      in case generateDHKeyPair of
           Inl e \<Rightarrow> (Inl e, ks, clk1)
         | Inr (pub, priv) \<Rightarrow>
             (let (tc, clk2) = Date_now clk1;
                  (te, clk3) = Date_now clk2
              in (Inr (i, pub),
                  Map_set i \<lparr>id_key = i, type_key = ECDH, publicKey = Some pub,
                             privateKey = Some priv, symmetricKey = None, createdAt = tc,
                             expiresAt = te + DEFAULT_KEY_LIFESPAN_MS\<rparr> ks,
                  clk3)))"

definition generateAndStoreAESSessionKey ::
  "keys \<Rightarrow> error + CryptoKey \<Rightarrow> string option \<Rightarrow> clock
     \<Rightarrow> (error + string \<times> CryptoKey) \<times> keys \<times> clock" where
  "generateAndStoreAESSessionKey ks generateAESKey keyId clk =
     (let (i, clk1) =
            (case keyId of
               Some k \<Rightarrow>
                 if k \<noteq> [] then (k, clk)
                 else (let (t, c) = Date_now clk in (''aes-session-'' @ String_of t, c))
             | None \<Rightarrow> (let (t, c) = Date_now clk in (''aes-session-'' @ String_of t, c)))
      in case generateAESKey of
           Inl e \<Rightarrow> (Inl e, ks, clk1)
         | Inr k \<Rightarrow>
             (let (tc, clk2) = Date_now clk1;
                  (te, clk3) = Date_now clk2
              in (Inr (i, k),
                  Map_set i \<lparr>id_key = i, type_key = AES, publicKey = None,
                             privateKey = None, symmetricKey = Some k, createdAt = tc,
                             expiresAt = te + DEFAULT_KEY_LIFESPAN_MS\<rparr> ks,
                  clk3)))"

text \<open>
  \<open>getKeyPair\<close> reads the clock only when the key is stored (\<^verbatim>\<open>&&\<close> evaluates its
  right operand only then).
\<close>

definition getKeyPair :: "keys \<Rightarrow> string \<Rightarrow> clock \<Rightarrow> StoredKeyPair option \<times> keys \<times> clock" where
  "getKeyPair ks keyId clk =
     (case Map_get ks keyId of
        None \<Rightarrow> (None, ks, clk)
      | Some stored \<Rightarrow>
          (let (now, clk1) = Date_now clk
           in if expiresAt stored < now
              then (None, snd (Map_delete keyId ks), clk1)
              else (Some stored, ks, clk1)))"

definition revokeKey :: "keys \<Rightarrow> string \<Rightarrow> bool \<times> keys" where
  "revokeKey ks keyId = Map_delete keyId ks"

definition getActiveKeyIds :: "keys \<Rightarrow> clock \<Rightarrow> string list \<times> clock" where
  "getActiveKeyIds ks clk =
     (let (now, clk1) = Date_now clk
      in (map fst (filter (\<lambda>(i, stored). expiresAt stored > now) ks), clk1))"

record SessionContext =
  sessionId :: string
  rsaEncryptionKeyId :: "string option"
  rsaSignatureKeyId :: "string option"
  aesSessionKeyId :: "string option"
  ecdhKeyId :: "string option"
  createdAt_s :: int
  expiresAt_s :: int

type_synonym sessions = "(string, SessionContext) jsmap"

text \<open>What the four generator calls of one \<open>createSession\<close> return.\<close>

record generators =
  generateRSAEncryptionKeys :: "error + CryptoKey \<times> CryptoKey"
  generateRSASignatureKeys :: "error + CryptoKey \<times> CryptoKey"
  generateAESKey :: "error + CryptoKey"
  generateDHKeyPair :: "error + CryptoKey \<times> CryptoKey"

definition SESSION_LIFESPAN_MS :: int where
  "SESSION_LIFESPAN_MS = 1800000"

text \<open>
  \<open>createSession\<close> has no handler around its four \<^verbatim>\<open>await\<close>s: the first generator
  that fails ends the call with its error, and the key store stays as the calls
  before it left it.
\<close>

definition createSession ::
  "keys \<times> sessions \<Rightarrow> generators \<Rightarrow> string option \<Rightarrow> clock
     \<Rightarrow> (error + SessionContext) \<times> (keys \<times> sessions) \<times> clock" where
  "createSession st gen sessionIdArg clk =
     (let (ks, ss) = st;
          (i, clk1) =
            (case sessionIdArg of
               Some s \<Rightarrow>
                 if s \<noteq> [] then (s, clk)
                 else (let (t, c) = Date_now clk in (''session-'' @ String_of t, c))
             | None \<Rightarrow> (let (t, c) = Date_now clk in (''session-'' @ String_of t, c)));
          (tc, clk2) = Date_now clk1;
          (te, clk3) = Date_now clk2;
          session = \<lparr>sessionId = i, rsaEncryptionKeyId = None, rsaSignatureKeyId = None,
                     aesSessionKeyId = None, ecdhKeyId = None, createdAt_s = tc,
                     expiresAt_s = te + SESSION_LIFESPAN_MS\<rparr>
      in case generateAndStoreRSAEncryptionKeys ks (generateRSAEncryptionKeys gen)
                (Some (i @ ''-rsa-enc'')) clk3 of
           (Inl e, ks1, clk4) \<Rightarrow> (Inl e, (ks1, ss), clk4)
         | (Inr rsaEnc, ks1, clk4) \<Rightarrow>
         (case generateAndStoreRSASignatureKeys ks1 (generateRSASignatureKeys gen)
                (Some (i @ ''-rsa-sig'')) clk4 of
           (Inl e, ks2, clk5) \<Rightarrow> (Inl e, (ks2, ss), clk5)
         | (Inr rsaSig, ks2, clk5) \<Rightarrow>
         (case generateAndStoreAESSessionKey ks2 (generateAESKey gen)
                (Some (i @ ''-aes'')) clk5 of
           (Inl e, ks3, clk6) \<Rightarrow> (Inl e, (ks3, ss), clk6)
         | (Inr aes, ks3, clk6) \<Rightarrow>
         (case generateAndStoreECDHKeyPair ks3 (generateDHKeyPair gen)
                (Some (i @ ''-ecdh'')) clk6 of
           (Inl e, ks4, clk7) \<Rightarrow> (Inl e, (ks4, ss), clk7)
         | (Inr ecdh, ks4, clk7) \<Rightarrow>
             (let session' = session\<lparr>rsaEncryptionKeyId := Some (fst rsaEnc),
                                      rsaSignatureKeyId := Some (fst rsaSig),
                                      aesSessionKeyId := Some (fst aes),
                                      ecdhKeyId := Some (fst ecdh)\<rparr>
              in (Inr session', (ks4, Map_set i session' ss), clk7))))))"

text \<open>\<^verbatim>\<open>if (id) keyStore.revokeKey(id)\<close>, for one of the four key ids of a session.\<close>

definition revokeIfSet :: "string option \<Rightarrow> keys \<Rightarrow> keys" where
  "revokeIfSet keyId ks =
     (case keyId of
        None \<Rightarrow> ks
      | Some k \<Rightarrow> if k \<noteq> [] then snd (revokeKey ks k) else ks)"

definition terminateSession :: "keys \<times> sessions \<Rightarrow> string \<Rightarrow> bool \<times> (keys \<times> sessions)" where
  "terminateSession st sId =
     (let (ks, ss) = st
      in case Map_get ss sId of
           None \<Rightarrow> (False, (ks, ss))
         | Some session \<Rightarrow>
             (let ks1 = revokeIfSet (rsaEncryptionKeyId session) ks;
                  ks2 = revokeIfSet (rsaSignatureKeyId session) ks1;
                  ks3 = revokeIfSet (aesSessionKeyId session) ks2;
                  ks4 = revokeIfSet (ecdhKeyId session) ks3;
                  (r, ss') = Map_delete sId ss
              in (r, (ks4, ss'))))"

text \<open>The key ids a session names.\<close>

definition session_key_ids :: "SessionContext \<Rightarrow> string list" where
  "session_key_ids s =
     concat (map (\<lambda>k. case k of None \<Rightarrow> [] | Some v \<Rightarrow> [v])
       [rsaEncryptionKeyId s, rsaSignatureKeyId s, aesSessionKeyId s, ecdhKeyId s])"

text \<open>
  The id of the session that \<open>createSession\<close> builds, and the suffixes of the sub-keys
  whose generation succeeds before the first failure, in the order of the calls.
\<close>

definition session_id_of :: "string option \<Rightarrow> clock \<Rightarrow> string" where
  "session_id_of sessionIdArg clk =
     (case sessionIdArg of
        Some s \<Rightarrow> if s \<noteq> [] then s else ''session-'' @ String_of (clk 0)
      | None \<Rightarrow> ''session-'' @ String_of (clk 0))"

definition generated_suffixes :: "generators \<Rightarrow> string list" where
  "generated_suffixes gen =
     map snd (takeWhile fst
       [(\<not> isl (generateRSAEncryptionKeys gen), ''-rsa-enc''),
        (\<not> isl (generateRSASignatureKeys gen), ''-rsa-sig''),
        (\<not> isl (generateAESKey gen), ''-aes''),
        (\<not> isl (generateDHKeyPair gen), ''-ecdh'')])"

definition some_generator_fails :: "generators \<Rightarrow> bool" where
  "some_generator_fails gen =
     (isl (generateRSAEncryptionKeys gen) \<or> isl (generateRSASignatureKeys gen)
      \<or> isl (generateAESKey gen) \<or> isl (generateDHKeyPair gen))"

section \<open>Relay and audit log (lib/communicationService.ts, lib/types/crypto.ts)\<close>

datatype EncryptionMethod = Caesar | Aes | Rsa

record EncryptedMessage =
  encryptedData :: string
  iv :: string
  nonce_msg :: string
  timestamp_msg :: int
  encryptionMethod :: EncryptionMethod
  mac :: "string option"
  signature :: "string option"

record AttackOptions =
  tamper :: bool
  replay :: bool
  mitm :: bool
  bruteForce :: "bool option"

record MessageLog =
  id_log :: string
  timestamp_log :: int
  sender :: string
  receiver :: string
  encrypted :: bool
  attacksDetected :: "string list"
  encryptedDataHash :: string
  decrypted :: bool

record SessionMessage =
  id_msg :: string
  payload_msg :: EncryptedMessage
  receivedAt :: int
  processedAt :: "int option"
  wasDecrypted :: "bool option"

record CommunicationService =
  messageBuffer :: "(string, SessionMessage) jsmap"
  messageLog :: "MessageLog list"

definition BUFFER_RETENTION_MS :: int where
  "BUFFER_RETENTION_MS = 300000"

definition MAX_LOG_SIZE :: nat where
  "MAX_LOG_SIZE = 1000"

text \<open>The service as \<^verbatim>\<open>new CommunicationService()\<close> leaves it.\<close>

definition newCommunicationService :: CommunicationService where
  "newCommunicationService = \<lparr>messageBuffer = [], messageLog = []\<rparr>"

definition storeEncryptedMessage ::
  "CommunicationService \<Rightarrow> string \<Rightarrow> EncryptedMessage \<Rightarrow> string option \<Rightarrow> clock
     \<Rightarrow> (string \<times> bool) \<times> CommunicationService \<times> clock" where
  "storeEncryptedMessage svc sId p messageIdArg clk =
     (let (mId, clk1) =
            (case messageIdArg of
               Some m \<Rightarrow> (m, clk)
             | None \<Rightarrow> (let (t, c) = Date_now clk in (''msg-'' @ String_of t, c)));
          (t, clk2) = Date_now clk1;
          buf = Map_set mId \<lparr>id_msg = mId, payload_msg = p, receivedAt = t,
                              processedAt = None, wasDecrypted = None\<rparr> (messageBuffer svc)
      in ((mId, Map_has buf mId), svc\<lparr>messageBuffer := buf\<rparr>, clk2))"

text \<open>\<^verbatim>\<open>push\<close> appends at the end; \<^verbatim>\<open>shift\<close> removes the first element.\<close>

definition logMessage ::
  "CommunicationService \<Rightarrow> string \<Rightarrow> string \<Rightarrow> string \<Rightarrow> string \<Rightarrow> string list option \<Rightarrow> clock
     \<Rightarrow> CommunicationService \<times> clock" where
  "logMessage svc mId sndr rcvr dataHash attacksArg clk =
     (let attacks = (case attacksArg of None \<Rightarrow> [] | Some a \<Rightarrow> a);
          (t, clk1) = Date_now clk;
          log = \<lparr>id_log = mId, timestamp_log = t, sender = sndr, receiver = rcvr,
                 encrypted = True, attacksDetected = attacks, encryptedDataHash = dataHash,
                 decrypted = False\<rparr>;
          pushed = messageLog svc @ [log];
          kept = (if length pushed > MAX_LOG_SIZE then tl pushed else pushed)
      in (svc\<lparr>messageLog := kept\<rparr>, clk1))"

definition logAttackAttempt ::
  "CommunicationService \<Rightarrow> string \<Rightarrow> string \<Rightarrow> clock \<Rightarrow> CommunicationService \<times> clock" where
  "logAttackAttempt svc mId attack clk =
     logMessage svc mId ''unknown'' ''unknown'' ''N/A'' (Some [attack]) clk"

text \<open>
  A history of the audit log: the arguments of the \<open>logMessage\<close> calls, in order, and
  the entry each call builds from them and from its reading of the clock.
\<close>

record log_call =
  call_id :: string
  call_sender :: string
  call_receiver :: string
  call_hash :: string
  call_attacks :: "string list option"

definition log_entry :: "log_call \<Rightarrow> int \<Rightarrow> MessageLog" where
  "log_entry c t =
     \<lparr>id_log = call_id c, timestamp_log = t, sender = call_sender c,
      receiver = call_receiver c, encrypted = True,
      attacksDetected = (case call_attacks c of None \<Rightarrow> [] | Some a \<Rightarrow> a),
      encryptedDataHash = call_hash c, decrypted = False\<rparr>"

definition log_step :: "CommunicationService \<times> clock \<Rightarrow> log_call \<Rightarrow> CommunicationService \<times> clock" where
  "log_step s c =
     logMessage (fst s) (call_id c) (call_sender c) (call_receiver c) (call_hash c)
       (call_attacks c) (snd s)"

definition log_run :: "CommunicationService \<times> clock \<Rightarrow> log_call list \<Rightarrow> CommunicationService \<times> clock" where
  "log_run s cs = foldl log_step s cs"

text \<open>The entries of a history: the \<open>k\<close>-th call reads the \<open>k\<close>-th reading of the clock.\<close>

definition log_entries :: "clock \<Rightarrow> log_call list \<Rightarrow> MessageLog list" where
  "log_entries clk cs = map (\<lambda>(c, k). log_entry c (clk k)) (zip cs [0..<length cs])"

section \<open>Request handlers (verify: unnamed/part_000; relay: app/api/health/route.ts)\<close>

text \<open>
  A request body is the parsed JSON of the request type, or the message of the error
  that parsing throws, which the handler catches.
\<close>

record VerifyRequest =
  nonce_req :: string
  integrity_req :: bool
  authentication_req :: bool
  replayEnabled :: bool
  signatureValid_req :: "bool option"
  freshnessValid_req :: "bool option"

record VerificationResult =
  integrity :: bool
  authentication :: bool
  replaySafe :: bool
  signatureValid_res :: "bool option"
  macValid :: "bool option"
  freshnessValid :: "bool option"
  detectedAttacks_res :: "string list option"
  message_res :: "string option"

fun join :: "string \<Rightarrow> string list \<Rightarrow> string" where
  "join sep [] = []"
| "join sep [x] = x"
| "join sep (x # y # ys) = x @ sep @ join sep (y # ys)"

definition POST_verify ::
  "usedNonces \<Rightarrow> string + VerifyRequest \<Rightarrow> clock \<Rightarrow> (nat \<times> VerificationResult) \<times> usedNonces \<times> clock" where
  "POST_verify ledger body clk =
     (case body of
        Inl msg \<Rightarrow>
          ((400, \<lparr>integrity = False, authentication = False, replaySafe = False,
                  signatureValid_res = None, macValid = None, freshnessValid = None,
                  detectedAttacks_res = Some [''error''],
                  message_res =
                    Some (''Verification failed: ''
                          @ (if msg \<noteq> [] then msg else ''Unknown error''))\<rparr>),
           ledger, clk)
      | Inr req \<Rightarrow>
          (let isReplayAttack = (replayEnabled req \<and> isReplay ledger (nonce_req req));
               safe = (\<not> isReplayAttack);
               (ledger1, clk1) =
                 (if \<not> isReplayAttack then markNonceUsed ledger (nonce_req req) clk
                  else (ledger, clk));
               d1 = (if \<not> integrity_req req then [''tamper''] else []);
               d2 = (if isReplayAttack then d1 @ [''replay''] else d1);
               d3 = (if signatureValid_req req = Some False \<and> replayEnabled req
                     then d2 @ [''mitm''] else d2);
               d4 = (if freshnessValid_req req = Some False then d3 @ [''stale''] else d3)
           in ((200, \<lparr>integrity = integrity_req req,
                       authentication = authentication_req req,
                       replaySafe = safe,
                       signatureValid_res = signatureValid_req req,
                       macValid = None,
                       freshnessValid = freshnessValid_req req,
                       detectedAttacks_res = Some d4,
                       message_res =
                         Some (if length d4 > 0
                               then ''Attacks detected: '' @ join '', '' d4
                               else ''Message verified successfully'')\<rparr>),
               ledger1, clk1)))"

record RelayRequest =
  payload :: EncryptedMessage
  attackOptions :: AttackOptions

record RelayResponse =
  success :: bool
  data :: "EncryptedMessage option"
  error_res :: "string option"

text \<open>
  The relay handler. Two computations on the payload are the platform's: the
  ciphertext after \<open>tamperCiphertext\<close> has flipped a random bit of it (\<open>tampered\<close>), and
  the first 16 hexadecimal digits of the decoded ciphertext (\<open>hexPrefix\<close>).
\<close>

definition POST_relay ::
  "(string \<Rightarrow> string) \<Rightarrow> (string \<Rightarrow> string) \<Rightarrow> usedNonces \<times> CommunicationService
     \<Rightarrow> string + RelayRequest \<Rightarrow> clock
     \<Rightarrow> (nat \<times> RelayResponse) \<times> (usedNonces \<times> CommunicationService) \<times> clock" where
  "POST_relay tampered hexPrefix st body clk =
     (let (ledger, svc) = st
      in case body of
           Inl msg \<Rightarrow>
             ((400, \<lparr>success = False, data = None,
                     error_res =
                       Some (''Invalid relay request''
                             @ (if msg \<noteq> [] then '': '' @ msg else []))\<rparr>),
              (ledger, svc), clk)
         | Inr req \<Rightarrow>
             (let p = payload req;
                  opts = attackOptions req;
                  (t, clk1) = Date_now clk;
                  mId = ''relay-'' @ String_of t
              in if replay opts \<and> isReplay ledger (nonce_msg p)
                 then (let (svc1, clk2) = logAttackAttempt svc mId ''replay'' clk1
                       in ((409, \<lparr>success = False, data = None,
                                   error_res = Some ''Replay attack detected: nonce reuse''\<rparr>),
                           (ledger, svc1), clk2))
                 else
                   (let (attacks1, modifiedPayload, svc1, clk2) =
                          (if tamper opts \<and> encryptedData p \<noteq> []
                           then (let (s, c) = logAttackAttempt svc mId ''tamper'' clk1
                                 in ([''tamper''],
                                     p\<lparr>encryptedData := tampered (encryptedData p)\<rparr>, s, c))
                           else ([], p, svc, clk1));
                        (attacks2, svc2, clk3) =
                          (if mitm opts
                           then (let (s, c) = logAttackAttempt svc1 mId ''mitm'' clk2
                                 in (attacks1 @ [''mitm''], s, c))
                           else (attacks1, svc1, clk2));
                        (ledger1, clk4) = markNonceUsed ledger (nonce_msg p) clk3;
                        (stored, svc3, clk5) =
                          storeEncryptedMessage svc2 ''default-session'' modifiedPayload
                            (Some mId) clk4;
                        h = hexPrefix (encryptedData modifiedPayload);
                        (svc4, clk6) =
                          logMessage svc3 mId ''sender@example.com'' ''receiver@example.com'' h
                            (Some attacks2) clk5
                    in ((200, \<lparr>success = True, data = Some modifiedPayload,
                                error_res = None\<rparr>),
                        (ledger1, svc4), clk6))))"

text \<open>
  How many readings of the clock the relay handler makes before it marks the nonce:
  one for the message id and one for each attack it logs.
\<close>

definition readings_before_mark :: "RelayRequest \<Rightarrow> nat" where
  "readings_before_mark req =
     1 + (if tamper (attackOptions req) \<and> encryptedData (payload req) \<noteq> [] then 1 else 0)
       + (if mitm (attackOptions req) then 1 else 0)"

section \<open>Facts about the Map model\<close>

lemma Map_get_set: "Map_get (Map_set k v m) k' = (if k' = k then Some v else Map_get m k')"
  by (simp add: Map_get_def Map_set_def update_conv')

lemma Map_get_delete:
  "Map_get (snd (Map_delete k m)) k' = (if k' = k then None else Map_get m k')"
  by (simp add: Map_get_def Map_delete_def delete_conv')

lemma Map_get_empty: "Map_get [] k = None"
  by (simp add: Map_get_def)

lemma Map_has_get: "Map_has m k = (Map_get m k \<noteq> None)"
  by (simp add: Map_has_def Map_get_def)

lemma Map_has_set: "Map_has (Map_set k v m) k' = (k' = k \<or> Map_has m k')"
  by (simp add: Map_has_get Map_get_set)

lemma Map_has_delete: "Map_has (snd (Map_delete k m)) k' = (k' \<noteq> k \<and> Map_has m k')"
  by (simp add: Map_has_get Map_get_delete)

lemma keys_Map_set: "fst ` set (Map_set k v m) = insert k (fst ` set m)"
  by (simp add: Map_set_def dom_update)

lemma fst_Date_now: "fst (Date_now clk) = clk 0"
  by (simp add: Date_now_def)

section \<open>Nonce ledger: replay answers follow the consumption history\<close>

lemma isReplay_markNonceUsed_same:
  assumes "ledger_inv l"
  shows "isReplay (fst (markNonceUsed l t clk)) t"
proof (cases "Map_get l t")
  case None
  then show ?thesis
    by (simp add: markNonceUsed_def isReplay_def Map_get_set split_def Let_def)
next
  case (Some r)
  then have "(t, r) \<in> set l"
    by (simp add: Map_get_def map_of_SomeD)
  with assms have "1 \<le> count r"
    by (auto simp: ledger_inv_def list_all_iff)
  with Some show ?thesis
    by (simp add: markNonceUsed_def isReplay_def Map_get_set split_def Let_def)
qed

lemma isReplay_markNonceUsed_other:
  "t' \<noteq> t \<Longrightarrow> isReplay (fst (markNonceUsed l t clk)) t' = isReplay l t'"
  by (simp add: markNonceUsed_def isReplay_def Map_get_set split_def Let_def split: option.splits)

lemma set_update_subset: "set (AList.update k v m) \<subseteq> insert (k, v) (set m)"
  by (induction m) auto

lemma ledger_inv_markNonceUsed:
  assumes "ledger_inv l"
  shows "ledger_inv (fst (markNonceUsed l t clk))"
proof (cases "Map_get l t")
  case None
  have "set (Map_set t \<lparr>nonce = t, usedAt = clk 0, count = 1\<rparr> l)
          \<subseteq> insert (t, \<lparr>nonce = t, usedAt = clk 0, count = 1\<rparr>) (set l)"
    unfolding Map_set_def by (rule set_update_subset)
  with assms None show ?thesis
    by (auto simp: markNonceUsed_def ledger_inv_def list_all_iff split_def fst_Date_now Let_def)
next
  case (Some r)
  then have "(t, r) \<in> set l"
    by (simp add: Map_get_def map_of_SomeD)
  with assms have c: "1 \<le> count r"
    by (auto simp: ledger_inv_def list_all_iff)
  have "set (Map_set t (r\<lparr>count := count r + 1, usedAt := clk 0\<rparr>) l)
          \<subseteq> insert (t, r\<lparr>count := count r + 1, usedAt := clk 0\<rparr>) (set l)"
    unfolding Map_set_def by (rule set_update_subset)
  with assms Some c show ?thesis
    by (auto simp: markNonceUsed_def ledger_inv_def list_all_iff split_def fst_Date_now Let_def)
qed

lemma ledger_step_inv: "ledger_inv (fst s) \<Longrightarrow> ledger_inv (fst (ledger_step s x))"
  by (cases s; cases x) (simp_all add: ledger_inv_markNonceUsed)

lemma ledger_step_isReplay:
  "ledger_inv (fst s) \<Longrightarrow>
   isReplay (fst (ledger_step s x)) t = (isReplay (fst s) t \<or> x = MarkNonceUsed t)"
proof (cases s; cases x)
  fix l clk t'
  assume inv: "ledger_inv (fst s)" and s: "s = (l, clk)" and x: "x = MarkNonceUsed t'"
  show ?thesis
  proof (cases "t' = t")
    case True
    with inv s x show ?thesis
      by (simp add: isReplay_markNonceUsed_same)
  next
    case False
    with s x show ?thesis
      by (auto simp: isReplay_markNonceUsed_other)
  qed
qed simp

lemma ledger_run_inv: "ledger_inv (fst s) \<Longrightarrow> ledger_inv (fst (ledger_run s ops))"
  unfolding ledger_run_def
  by (induction ops arbitrary: s) (simp_all add: ledger_step_inv)

lemma ledger_run_isReplay:
  "ledger_inv (fst s) \<Longrightarrow>
   isReplay (fst (ledger_run s ops)) t = (isReplay (fst s) t \<or> MarkNonceUsed t \<in> set ops)"
  unfolding ledger_run_def
proof (induction ops arbitrary: s)
  case Nil
  then show ?case by simp
next
  case (Cons x ops)
  from Cons.prems have "ledger_inv (fst (ledger_step s x))"
    by (rule ledger_step_inv)
  from Cons.IH [OF this] Cons.prems show ?case
    by (auto simp: ledger_step_isReplay)
qed

lemma ledger_run_filter: "ledger_run s (filter is_mark ops) = ledger_run s ops"
  unfolding ledger_run_def
proof (induction ops arbitrary: s)
  case Nil
  then show ?case by simp
next
  case (Cons x ops)
  then show ?case
    by (cases s; cases x) (simp_all add: is_mark_def)
qed

text \<open>
  C5. From the empty ledger and after any history of calls, \<open>isReplay t\<close> answers true
  exactly when \<open>markNonceUsed t\<close> occurs in the history: false as long as the token was
  never marked, true from the first marking on. The calls of \<open>isReplay\<close> leave no
  trace: the ledger and the clock are those of the history with every \<open>isReplay\<close>
  call removed.
\<close>

theorem isReplay_follows_history:
  "isReplay (fst (ledger_run ([], clk) ops)) t = (MarkNonceUsed t \<in> set ops)
   \<and> ledger_run ([], clk) (ops @ [IsReplay t]) = ledger_run ([], clk) ops
   \<and> ledger_run ([], clk) (filter is_mark ops) = ledger_run ([], clk) ops"
proof -
  have inv: "ledger_inv (fst (([], clk) :: usedNonces \<times> clock))"
    by (simp add: ledger_inv_def)
  have "isReplay (fst (ledger_run ([], clk) ops)) t = (MarkNonceUsed t \<in> set ops)"
    using ledger_run_isReplay [OF inv, of ops t]
    by (simp add: isReplay_def Map_get_empty)
  moreover have "ledger_run ([], clk) (ops @ [IsReplay t]) = ledger_run ([], clk) ops"
    by (cases "foldl ledger_step ([], clk) ops") (simp add: ledger_run_def)
  ultimately show ?thesis
    by (simp add: ledger_run_filter)
qed

theorem isReplay_follows_history_witness:
  "isReplay (fst (ledger_run ([], \<lambda>k. 7) [IsReplay ''a'', MarkNonceUsed ''a'', IsReplay ''a''])) ''a''
   \<and> \<not> isReplay (fst (ledger_run ([], \<lambda>k. 7) [IsReplay ''a'', MarkNonceUsed ''b''])) ''a''"
  using isReplay_follows_history [of "\<lambda>k. 7" "[IsReplay ''a'', MarkNonceUsed ''a'', IsReplay ''a'']" "''a''"]
    isReplay_follows_history [of "\<lambda>k. 7" "[IsReplay ''a'', MarkNonceUsed ''b'']" "''a''"]
  by simp


section \<open>Verification service: the report\<close>

lemmas report_defs = generateVerificationReport_def verifyHash_def checkNonceFreshness_def
  checkTimestampFreshness_def checkClockSync_def detectTampering_def detectReplay_def
  detectMITM_def Date_now_def MESSAGE_MAX_AGE_MS_def MAX_CLOCK_SKEW_MS_def

lemma clk_two: "clk (Suc (Suc 0)) = clk 2"
  by (simp add: numeral_2_eq_2)

lemma finite_failing_checks: "finite (failing_checks h l messageHash n ts sv clk)"
  by (simp add: failing_checks_def)

lemma weight_nonneg: "0 \<le> weight c"
  by (cases c) (simp_all add: weight_def)

lemma report_shape:
  assumes "sha256 message = Inr h"
  shows "\<exists>r clk'. generateVerificationReport sha256 l mId message messageHash n ts sv clk = (Inr r, clk')
     \<and> riskScore r = min (score_of (h \<noteq> messageHash) (isReplay l n)
                            (\<not> (clk 1 - ts < 3600000 \<and> clk 1 - ts \<ge> 0))
                            (\<not> \<bar>clk 2 - ts\<bar> \<le> 5000) (sv = Some False)) 100
     \<and> overallStatus r = (if riskScore r > 70 then COMPROMISED
                           else if riskScore r > 30 then SUSPICIOUS else SAFE)
     \<and> map attackType (detectedAttacks r) =
           (if h \<noteq> messageHash then [Some Tamper] else [])
           @ (if isReplay l n then [Some Replay] else [])
           @ (if sv = Some False then [Some Mitm] else [])
     \<and> map detected (detectedAttacks r) = map (\<lambda>d. True) (detectedAttacks r)
     \<and> map confidence (detectedAttacks r) =
           (if h \<noteq> messageHash then [1] else [])
           @ (if isReplay l n then [1] else [])
           @ (if sv = Some False then [9 / 10] else [])
     \<and> checks r = \<lparr>integrityCheck = (h = messageHash),
                      signatureCheck = (sv = Some True),
                      replayCheck = (\<not> isReplay l n),
                      freshnessCheck = (clk 1 - ts < 3600000 \<and> clk 1 - ts \<ge> 0),
                      timeSyncCheck = (\<bar>clk 2 - ts\<bar> \<le> 5000)\<rparr>"
  using assms
  by (cases "h = messageHash"; cases "isReplay l n"; cases "sv = Some False"; cases sv)
    (simp_all add: report_defs Let_def clk_two score_of_def)

lemma report_signature_absent:
  assumes "sha256 message = Inr h"
  shows "\<exists>r clk'. generateVerificationReport sha256 l mId message messageHash n ts None clk = (Inr r, clk')
     \<and> generateVerificationReport sha256 l mId message messageHash n ts (Some True) clk
         = (Inr (r\<lparr>checks := (checks r)\<lparr>signatureCheck := True\<rparr>\<rparr>), clk')
     \<and> signatureCheck (checks r) = False"
  using assms
  by (cases "h = messageHash"; cases "isReplay l n")
    (simp_all add: report_defs Let_def clk_two)


lemma sum_weight_failing_checks:
  "sum weight (failing_checks h l messageHash n ts sv clk)
     = score_of (h \<noteq> messageHash) (isReplay l n)
         (\<not> (clk 1 - ts < 3600000 \<and> clk 1 - ts \<ge> 0))
         (\<not> \<bar>clk 2 - ts\<bar> \<le> 5000) (sv = Some False)"
  by (cases "h = messageHash"; cases "isReplay l n"; cases "sv = Some False";
      cases "clk 1 - ts < 3600000 \<and> clk 1 - ts \<ge> 0"; cases "\<bar>clk 2 - ts\<bar> \<le> 5000")
    (auto simp add: failing_checks_def score_of_def weight_def)

text \<open>
  C1. When the recomputed digest differs from the claimed one, the ledger reports the
  nonce as replayed, the signature flag is supplied as false, and the timestamp passes
  the freshness and the clock-sync check, the report is produced with risk score 85
  and status COMPROMISED, and it lists exactly three detections, all positive, in the
  order tamper, replay, mitm, with confidences 1, 1 and 0.9.
\<close>

theorem report_tamper_replay_mitm:
  assumes "sha256 message = Inr h" and "h \<noteq> messageHash" and "isReplay l n"
    and "0 \<le> clk 1 - ts" and "clk 1 - ts < 3600000" and "\<bar>clk 2 - ts\<bar> \<le> 5000"
  shows "\<exists>r clk'.
      generateVerificationReport sha256 l mId message messageHash n ts (Some False) clk
        = (Inr r, clk')
    \<and> riskScore r = 85 \<and> overallStatus r = COMPROMISED
    \<and> length (detectedAttacks r) = 3
    \<and> map attackType (detectedAttacks r) = [Some Tamper, Some Replay, Some Mitm]
    \<and> map detected (detectedAttacks r) = [True, True, True]
    \<and> map confidence (detectedAttacks r) = [1, 1, 9 / 10]"
proof -
  obtain r clk' where
    r: "generateVerificationReport sha256 l mId message messageHash n ts (Some False) clk
          = (Inr r, clk')"
    and score: "riskScore r = min (score_of (h \<noteq> messageHash) (isReplay l n)
                            (\<not> (clk 1 - ts < 3600000 \<and> clk 1 - ts \<ge> 0))
                            (\<not> \<bar>clk 2 - ts\<bar> \<le> 5000) (Some False = Some False)) 100"
    and status: "overallStatus r = (if riskScore r > 70 then COMPROMISED
                           else if riskScore r > 30 then SUSPICIOUS else SAFE)"
    and types: "map attackType (detectedAttacks r) =
           (if h \<noteq> messageHash then [Some Tamper] else [])
           @ (if isReplay l n then [Some Replay] else [])
           @ (if Some False = Some False then [Some Mitm] else [])"
    and det: "map detected (detectedAttacks r) = map (\<lambda>d. True) (detectedAttacks r)"
    and conf: "map confidence (detectedAttacks r) =
           (if h \<noteq> messageHash then [1] else [])
           @ (if isReplay l n then [1] else [])
           @ (if Some False = Some False then [9 / 10] else [])"
    using report_shape [of sha256 message h l mId messageHash n ts "Some False" clk] assms(1)
    by blast
  from score assms have s85: "riskScore r = 85"
    by (simp add: score_of_def)
  from types assms have t: "map attackType (detectedAttacks r) = [Some Tamper, Some Replay, Some Mitm]"
    by simp
  then have len: "length (detectedAttacks r) = 3"
    by (metis length_map length_Cons list.size(3) numeral_3_eq_3)
  from len obtain a b c where abc: "detectedAttacks r = [a, b, c]"
    by (auto simp: length_Suc_conv numeral_3_eq_3)
  from det abc have d: "map detected (detectedAttacks r) = [True, True, True]"
    by simp
  from conf assms have c: "map confidence (detectedAttacks r) = [1, 1, 9 / 10]"
    by simp
  from r s85 status t len d c show ?thesis
    by simp
qed

theorem report_tamper_replay_mitm_witness:
  "\<exists>r clk'.
      generateVerificationReport (\<lambda>m. Inr (''h:'' @ m))
        [(''n1'', \<lparr>nonce = ''n1'', usedAt = 900, count = 1\<rparr>)]
        ''m1'' ''hello'' ''h:hellx'' ''n1'' 1000 (Some False) (\<lambda>k. 1000 + int k)
        = (Inr r, clk')
    \<and> riskScore r = 85 \<and> overallStatus r = COMPROMISED
    \<and> length (detectedAttacks r) = 3
    \<and> map attackType (detectedAttacks r) = [Some Tamper, Some Replay, Some Mitm]
    \<and> map detected (detectedAttacks r) = [True, True, True]
    \<and> map confidence (detectedAttacks r) = [1, 1, 9 / 10]"
  using report_tamper_replay_mitm [of "\<lambda>m. Inr (''h:'' @ m)" "''hello''" "''h:hello''" "''h:hellx''"
      "[(''n1'', \<lparr>nonce = ''n1'', usedAt = 900, count = 1\<rparr>)]" "''n1''" "\<lambda>k. 1000 + int k" 1000 "''m1''"]
  by (simp add: isReplay_def Map_get_def)

text \<open>
  C2. When the recomputed digest equals the claimed one, the nonce was never marked
  used in the history of the ledger, the age of the timestamp is in [0, 1 hour) at the
  freshness check and within 5 seconds at the clock-sync check, and the signature flag
  is absent or true, the report is produced with risk score 0, status SAFE and no
  detection.
\<close>

theorem report_clean_message:
  assumes "sha256 message = Inr messageHash"
    and "MarkNonceUsed n \<notin> set ops"
    and "0 \<le> clk 1 - ts" and "clk 1 - ts < 3600000" and "\<bar>clk 2 - ts\<bar> \<le> 5000"
    and "signatureValid = None \<or> signatureValid = Some True"
  shows "\<exists>r clk'.
      generateVerificationReport sha256 (fst (ledger_run ([], clk0) ops)) mId message messageHash
        n ts signatureValid clk = (Inr r, clk')
    \<and> riskScore r = 0 \<and> overallStatus r = SAFE \<and> detectedAttacks r = []"
proof -
  let ?l = "fst (ledger_run ([], clk0) ops)"
  have "ledger_inv (fst (([], clk0) :: usedNonces \<times> clock))"
    by (simp add: ledger_inv_def)
  from ledger_run_isReplay [OF this, of ops n] assms(2) have fresh: "\<not> isReplay ?l n"
    by (simp add: isReplay_def Map_get_empty)
  from assms(6) have sv: "signatureValid \<noteq> Some False"
    by auto
  obtain r clk' where
    r: "generateVerificationReport sha256 ?l mId message messageHash n ts signatureValid clk
          = (Inr r, clk')"
    and score: "riskScore r = min (score_of (messageHash \<noteq> messageHash) (isReplay ?l n)
                            (\<not> (clk 1 - ts < 3600000 \<and> clk 1 - ts \<ge> 0))
                            (\<not> \<bar>clk 2 - ts\<bar> \<le> 5000) (signatureValid = Some False)) 100"
    and status: "overallStatus r = (if riskScore r > 70 then COMPROMISED
                           else if riskScore r > 30 then SUSPICIOUS else SAFE)"
    and types: "map attackType (detectedAttacks r) =
           (if messageHash \<noteq> messageHash then [Some Tamper] else [])
           @ (if isReplay ?l n then [Some Replay] else [])
           @ (if signatureValid = Some False then [Some Mitm] else [])"
    using report_shape [of sha256 message messageHash ?l mId messageHash n ts signatureValid clk]
      assms(1)
    by blast
  from score fresh sv assms have "riskScore r = 0"
    by (simp add: score_of_def)
  moreover from types fresh sv have "detectedAttacks r = []"
    by simp
  ultimately show ?thesis
    using r status by simp
qed

theorem report_clean_message_witness:
  "\<exists>r clk'.
      generateVerificationReport (\<lambda>m. Inr (''h:'' @ m))
        (fst (ledger_run ([], \<lambda>k. 500) [MarkNonceUsed ''n0'', IsReplay ''n1'']))
        ''m1'' ''hello'' ''h:hello'' ''n1'' 1000 None (\<lambda>k. 1000 + int k) = (Inr r, clk')
    \<and> riskScore r = 0 \<and> overallStatus r = SAFE \<and> detectedAttacks r = []"
  using report_clean_message [of "\<lambda>m. Inr (''h:'' @ m)" "''hello''" "''h:hello''" "''n1''"
      "[MarkNonceUsed ''n0'', IsReplay ''n1'']" "\<lambda>k. 1000 + int k" 1000 None "\<lambda>k. 500" "''m1''"]
  by simp

text \<open>
  C8. Whenever the hash is available the report is produced and its risk score lies
  in [0, 100]; and of two calls, the one whose set of failing checks is included in the
  other's has the smaller or equal risk score.
\<close>

theorem riskScore_bounded_monotonic:
  assumes "sha256 message = Inr h" and "sha256' message' = Inr h'"
    and "failing_checks h l messageHash n ts sv clk
           \<subseteq> failing_checks h' l' messageHash' n' ts' sv' clk'"
  shows "\<exists>r c r' c'.
      generateVerificationReport sha256 l mId message messageHash n ts sv clk = (Inr r, c)
    \<and> generateVerificationReport sha256' l' mId' message' messageHash' n' ts' sv' clk' = (Inr r', c')
    \<and> 0 \<le> riskScore r \<and> riskScore r \<le> 100 \<and> riskScore r \<le> riskScore r'"
proof -
  let ?F = "failing_checks h l messageHash n ts sv clk"
  let ?F' = "failing_checks h' l' messageHash' n' ts' sv' clk'"
  obtain r c where r: "generateVerificationReport sha256 l mId message messageHash n ts sv clk = (Inr r, c)"
    and s: "riskScore r = min (sum weight ?F) 100"
    using report_shape [of sha256 message h l mId messageHash n ts sv clk] assms(1)
    unfolding sum_weight_failing_checks by blast
  obtain r' c' where r': "generateVerificationReport sha256' l' mId' message' messageHash' n' ts' sv' clk' = (Inr r', c')"
    and s': "riskScore r' = min (sum weight ?F') 100"
    using report_shape [of sha256' message' h' l' mId' messageHash' n' ts' sv' clk'] assms(2)
    unfolding sum_weight_failing_checks by blast
  have "sum weight ?F \<le> sum weight ?F'"
    using assms(3) by (intro sum_mono2) (simp_all add: finite_failing_checks weight_nonneg)
  moreover have "0 \<le> sum weight ?F"
    by (simp add: sum_nonneg weight_nonneg)
  ultimately have "0 \<le> riskScore r \<and> riskScore r \<le> 100 \<and> riskScore r \<le> riskScore r'"
    using s s' by simp
  with r r' show ?thesis by blast
qed

theorem riskScore_bounded_monotonic_witness:
  "\<exists>r c r' c'.
      generateVerificationReport (\<lambda>m. Inr (''h:'' @ m)) [] ''m1'' ''hello'' ''h:hellx'' ''n1'' 1000
        None (\<lambda>k. 1000 + int k) = (Inr r, c)
    \<and> generateVerificationReport (\<lambda>m. Inr (''h:'' @ m)) [] ''m2'' ''hello'' ''h:hellx'' ''n1'' 1000
        (Some False) (\<lambda>k. 9000 + int k) = (Inr r', c')
    \<and> 0 \<le> riskScore r \<and> riskScore r \<le> 100 \<and> riskScore r \<le> riskScore r'"
  using riskScore_bounded_monotonic [of "\<lambda>m. Inr (''h:'' @ m)" "''hello''" "''h:hello''"
      "\<lambda>m. Inr (''h:'' @ m)" "''hello''" "''h:hello''" "[]" "''h:hellx''" "''n1''" 1000 None
      "\<lambda>k. 1000 + int k" "[]" "''h:hellx''" "''n1''" 1000 "Some False" "\<lambda>k. 9000 + int k"
      "''m1''" "''m2''"]
  by (simp add: failing_checks_def isReplay_def Map_get_def)

text \<open>
  C10. With the signature flag absent, the report's \<open>signatureCheck\<close> is false and its
  \<open>checks\<close> are those of the same call with the flag false, although the score, the
  status and the detections are those of the call with the flag true: no weight is
  added and no MITM detection is listed, while the call with the flag false lists one.
\<close>

theorem absent_signature_reads_as_failed:
  assumes "sha256 message = Inr h"
  shows "\<exists>r c r' c' r'' c''.
      generateVerificationReport sha256 l mId message messageHash n ts None clk = (Inr r, c)
    \<and> generateVerificationReport sha256 l mId message messageHash n ts (Some False) clk = (Inr r', c')
    \<and> generateVerificationReport sha256 l mId message messageHash n ts (Some True) clk = (Inr r'', c'')
    \<and> signatureCheck (checks r) = False
    \<and> checks r = checks r'
    \<and> riskScore r = riskScore r''
    \<and> overallStatus r = overallStatus r''
    \<and> detectedAttacks r = detectedAttacks r''
    \<and> Some Mitm \<notin> set (map attackType (detectedAttacks r))
    \<and> Some Mitm \<in> set (map attackType (detectedAttacks r'))"
proof -
  obtain r c where
    r: "generateVerificationReport sha256 l mId message messageHash n ts None clk = (Inr r, c)"
    and r'': "generateVerificationReport sha256 l mId message messageHash n ts (Some True) clk
         = (Inr (r\<lparr>checks := (checks r)\<lparr>signatureCheck := True\<rparr>\<rparr>), c)"
    and sc: "signatureCheck (checks r) = False"
    using report_signature_absent [of sha256 message h l mId messageHash n ts clk] assms
    by blast
  obtain r0 c0 where
    r0: "generateVerificationReport sha256 l mId message messageHash n ts None clk = (Inr r0, c0)"
    and types: "map attackType (detectedAttacks r0) =
           (if h \<noteq> messageHash then [Some Tamper] else [])
           @ (if isReplay l n then [Some Replay] else [])
           @ (if None = Some False then [Some Mitm] else [])"
    and ch: "checks r0 = \<lparr>integrityCheck = (h = messageHash),
                      signatureCheck = (None = Some True),
                      replayCheck = (\<not> isReplay l n),
                      freshnessCheck = (clk 1 - ts < 3600000 \<and> clk 1 - ts \<ge> 0),
                      timeSyncCheck = (\<bar>clk 2 - ts\<bar> \<le> 5000)\<rparr>"
    using report_shape [of sha256 message h l mId messageHash n ts None clk] assms
    by blast
  obtain r' c' where
    r': "generateVerificationReport sha256 l mId message messageHash n ts (Some False) clk = (Inr r', c')"
    and types': "map attackType (detectedAttacks r') =
           (if h \<noteq> messageHash then [Some Tamper] else [])
           @ (if isReplay l n then [Some Replay] else [])
           @ (if Some False = Some False then [Some Mitm] else [])"
    and ch': "checks r' = \<lparr>integrityCheck = (h = messageHash),
                      signatureCheck = (Some False = Some True),
                      replayCheck = (\<not> isReplay l n),
                      freshnessCheck = (clk 1 - ts < 3600000 \<and> clk 1 - ts \<ge> 0),
                      timeSyncCheck = (\<bar>clk 2 - ts\<bar> \<le> 5000)\<rparr>"
    using report_shape [of sha256 message h l mId messageHash n ts "Some False" clk] assms
    by blast
  from r r0 have eq: "r0 = r" by simp
  have no_mitm: "Some Mitm \<notin> set (map attackType (detectedAttacks r))"
    unfolding types [unfolded eq] by simp
  have mitm: "Some Mitm \<in> set (map attackType (detectedAttacks r'))"
    unfolding types' by simp
  have same: "checks r = checks r'"
    using ch ch' eq by simp
  show ?thesis
    using r r' r'' sc same no_mitm mitm by simp
qed

theorem absent_signature_reads_as_failed_witness:
  "\<exists>r c r' c' r'' c''.
      generateVerificationReport (\<lambda>m. Inr (''h:'' @ m)) [] ''m1'' ''hello'' ''h:hello'' ''n1'' 1000
        None (\<lambda>k. 1000 + int k) = (Inr r, c)
    \<and> generateVerificationReport (\<lambda>m. Inr (''h:'' @ m)) [] ''m1'' ''hello'' ''h:hello'' ''n1'' 1000
        (Some False) (\<lambda>k. 1000 + int k) = (Inr r', c')
    \<and> generateVerificationReport (\<lambda>m. Inr (''h:'' @ m)) [] ''m1'' ''hello'' ''h:hello'' ''n1'' 1000
        (Some True) (\<lambda>k. 1000 + int k) = (Inr r'', c'')
    \<and> signatureCheck (checks r) = False
    \<and> checks r = checks r'
    \<and> riskScore r = riskScore r''
    \<and> overallStatus r = overallStatus r''
    \<and> detectedAttacks r = detectedAttacks r''
    \<and> Some Mitm \<notin> set (map attackType (detectedAttacks r))
    \<and> Some Mitm \<in> set (map attackType (detectedAttacks r'))"
  using absent_signature_reads_as_failed [of "\<lambda>m. Inr (''h:'' @ m)" "''hello''" "''h:hello''" "[]"
      "''m1''" "''h:hello''" "''n1''" 1000 "\<lambda>k. 1000 + int k"]
  by simp

section \<open>Key store: expiry on read\<close>

lemma getKeyPair_absent:
  "Map_get ks k = None \<Longrightarrow> getKeyPair ks k clk = (None, ks, clk)"
  by (simp add: getKeyPair_def)

lemma getKeyPair_expired:
  assumes "Map_get ks k = Some stored" and "expiresAt stored < clk 0"
  shows "getKeyPair ks k clk = (None, snd (Map_delete k ks), \<lambda>j. clk (Suc j))"
    and "Map_get (fst (snd (getKeyPair ks k clk))) k = None"
    and "k \<notin> set (fst (getActiveKeyIds (fst (snd (getKeyPair ks k clk))) clk'))"
proof -
  show g: "getKeyPair ks k clk = (None, snd (Map_delete k ks), \<lambda>j. clk (Suc j))"
    using assms by (simp add: getKeyPair_def Date_now_def)
  show "Map_get (fst (snd (getKeyPair ks k clk))) k = None"
    by (simp add: g Map_get_delete)
  have "k \<notin> set (map fst (snd (Map_delete k ks)))"
    by (simp add: Map_delete_def delete_notin_dom)
  then show "k \<notin> set (fst (getActiveKeyIds (fst (snd (getKeyPair ks k clk))) clk'))"
    by (auto simp: g getActiveKeyIds_def Date_now_def)
qed

lemma getKeyPair_live:
  assumes "Map_get ks k = Some stored" and "clk 0 \<le> expiresAt stored"
  shows "getKeyPair ks k clk = (Some stored, ks, \<lambda>j. clk (Suc j))"
  using assms by (simp add: getKeyPair_def Date_now_def)

lemma generateAndStoreAESSessionKey_then_getKeyPair:
  assumes "k \<noteq> []" and "clk 2 \<le> clk 1 + 3600000"
  shows "\<exists>ks' clk' stored.
           generateAndStoreAESSessionKey ks (Inr key) (Some k) clk = (Inr (k, key), ks', clk')
         \<and> Map_get ks' k = Some stored
         \<and> stored = \<lparr>id_key = k, type_key = AES, publicKey = None, privateKey = None,
               symmetricKey = Some key, createdAt = clk 0, expiresAt = clk 1 + 3600000\<rparr>
         \<and> getKeyPair ks' k clk' = (Some stored, ks', \<lambda>j. clk' (Suc j))"
  using assms
  by (simp add: generateAndStoreAESSessionKey_def getKeyPair_def Date_now_def Let_def
      Map_get_set DEFAULT_KEY_LIFESPAN_MS_def numeral_2_eq_2)

text \<open>
  C3. At the instant \<open>now = expiresAt\<close> the two readers of the store disagree. A key
  created at 1000 expires at 3601000; \<open>getKeyPair\<close> called at 3601000 still returns the
  record (its test is \<open>expiresAt < now\<close>), although \<open>now < expiresAt\<close> is false, while
  \<open>getActiveKeyIds\<close> at the same instant does not list the id (its test is
  \<open>expiresAt > now\<close>).
\<close>

theorem getKeyPair_at_expiry_instant:
  "generateAndStoreAESSessionKey [] (Inr (CryptoKey 1)) (Some ''k1'') (\<lambda>j. 1000)
     = (Inr (''k1'', CryptoKey 1),
        [(''k1'', \<lparr>id_key = ''k1'', type_key = AES, publicKey = None, privateKey = None,
                  symmetricKey = Some (CryptoKey 1), createdAt = 1000, expiresAt = 3601000\<rparr>)],
        \<lambda>j. 1000)
   \<and> fst (getKeyPair
        [(''k1'', \<lparr>id_key = ''k1'', type_key = AES, publicKey = None, privateKey = None,
                  symmetricKey = Some (CryptoKey 1), createdAt = 1000, expiresAt = 3601000\<rparr>)]
        ''k1'' (\<lambda>j. 3601000))
     = Some \<lparr>id_key = ''k1'', type_key = AES, publicKey = None, privateKey = None,
             symmetricKey = Some (CryptoKey 1), createdAt = 1000, expiresAt = 3601000\<rparr>
   \<and> fst (getActiveKeyIds
        [(''k1'', \<lparr>id_key = ''k1'', type_key = AES, publicKey = None, privateKey = None,
                  symmetricKey = Some (CryptoKey 1), createdAt = 1000, expiresAt = 3601000\<rparr>)]
        (\<lambda>j. 3601000)) = []"
  by (simp add: generateAndStoreAESSessionKey_def getKeyPair_def getActiveKeyIds_def Date_now_def
      Let_def Map_get_def Map_set_def DEFAULT_KEY_LIFESPAN_MS_def)

section \<open>Session creation\<close>

lemma generateAndStoreRSAEncryptionKeys_Some:
  assumes "k \<noteq> []"
  shows "generateAndStoreRSAEncryptionKeys ks g (Some k) clk =
     (case g of
        Inl e \<Rightarrow> (Inl e, ks, clk)
      | Inr p \<Rightarrow>
          (Inr (k, fst p),
           Map_set k \<lparr>id_key = k, type_key = RSA_ENCRYPT, publicKey = Some (fst p),
                      privateKey = Some (snd p), symmetricKey = None, createdAt = clk 0,
                      expiresAt = clk 1 + 3600000\<rparr> ks,
           \<lambda>j. clk (Suc (Suc j))))"
  using assms
  by (simp add: generateAndStoreRSAEncryptionKeys_def Date_now_def Let_def
      DEFAULT_KEY_LIFESPAN_MS_def split_def split: sum.splits)

lemma generateAndStoreRSASignatureKeys_Some:
  assumes "k \<noteq> []"
  shows "generateAndStoreRSASignatureKeys ks g (Some k) clk =
     (case g of
        Inl e \<Rightarrow> (Inl e, ks, clk)
      | Inr p \<Rightarrow>
          (Inr (k, fst p),
           Map_set k \<lparr>id_key = k, type_key = RSA_SIGN, publicKey = Some (fst p),
                      privateKey = Some (snd p), symmetricKey = None, createdAt = clk 0,
                      expiresAt = clk 1 + 3600000\<rparr> ks,
           \<lambda>j. clk (Suc (Suc j))))"
  using assms
  by (simp add: generateAndStoreRSASignatureKeys_def Date_now_def Let_def
      DEFAULT_KEY_LIFESPAN_MS_def split_def split: sum.splits)

lemma generateAndStoreECDHKeyPair_Some:
  assumes "k \<noteq> []"
  shows "generateAndStoreECDHKeyPair ks g (Some k) clk =
     (case g of
        Inl e \<Rightarrow> (Inl e, ks, clk)
      | Inr p \<Rightarrow>
          (Inr (k, fst p),
           Map_set k \<lparr>id_key = k, type_key = ECDH, publicKey = Some (fst p),
                      privateKey = Some (snd p), symmetricKey = None, createdAt = clk 0,
                      expiresAt = clk 1 + 3600000\<rparr> ks,
           \<lambda>j. clk (Suc (Suc j))))"
  using assms
  by (simp add: generateAndStoreECDHKeyPair_def Date_now_def Let_def
      DEFAULT_KEY_LIFESPAN_MS_def split_def split: sum.splits)

lemma generateAndStoreAESSessionKey_Some:
  assumes "k \<noteq> []"
  shows "generateAndStoreAESSessionKey ks g (Some k) clk =
     (case g of
        Inl e \<Rightarrow> (Inl e, ks, clk)
      | Inr key \<Rightarrow>
          (Inr (k, key),
           Map_set k \<lparr>id_key = k, type_key = AES, publicKey = None,
                      privateKey = None, symmetricKey = Some key, createdAt = clk 0,
                      expiresAt = clk 1 + 3600000\<rparr> ks,
           \<lambda>j. clk (Suc (Suc j))))"
  using assms
  by (simp add: generateAndStoreAESSessionKey_def Date_now_def Let_def
      DEFAULT_KEY_LIFESPAN_MS_def split_def split: sum.splits)

lemmas generateAndStore_Some = generateAndStoreRSAEncryptionKeys_Some
  generateAndStoreRSASignatureKeys_Some generateAndStoreAESSessionKey_Some
  generateAndStoreECDHKeyPair_Some

text \<open>
  C4, as the code has it. If any of the four sub-key generations fails, \<open>createSession\<close>
  fails with an error and stores no session record, and nothing is rolled back: the key
  store holds, beside what it held before, exactly the sub-keys generated before the
  first failure.
\<close>

theorem createSession_not_atomic:
  assumes "some_generator_fails gen"
  shows "\<exists>e ks' clk'.
      createSession (ks, ss) gen sessionIdArg clk = (Inl e, (ks', ss), clk')
    \<and> set (map fst ks') =
        set (map fst ks)
        \<union> set (map (\<lambda>suffix. session_id_of sessionIdArg clk @ suffix) (generated_suffixes gen))"
proof -
  obtain g1 g2 g3 g4 where g:
    "generateRSAEncryptionKeys gen = g1" "generateRSASignatureKeys gen = g2"
    "generateAESKey gen = g3" "generateDHKeyPair gen = g4"
    by simp
  show ?thesis
    using assms
    by (cases g1; cases g2; cases g3; cases g4; cases sessionIdArg)
      (simp_all add: createSession_def generateAndStore_Some g some_generator_fails_def
        generated_suffixes_def session_id_of_def Date_now_def Let_def keys_Map_set
        insert_commute)
qed


theorem createSession_not_atomic_witness:
  "\<exists>e ks' clk'.
      createSession ([], [])
        \<lparr>generateRSAEncryptionKeys = Inr (CryptoKey 1, CryptoKey 2),
         generateRSASignatureKeys = Inr (CryptoKey 3, CryptoKey 4),
         generateAESKey = Inl CryptoUnavailable,
         generateDHKeyPair = Inr (CryptoKey 5, CryptoKey 6)\<rparr>
        (Some ''s1'') (\<lambda>j. 1000) = (Inl e, (ks', []), clk')
    \<and> set (map fst ks') = {''s1-rsa-enc'', ''s1-rsa-sig''}"
  using createSession_not_atomic [of
      "\<lparr>generateRSAEncryptionKeys = Inr (CryptoKey 1, CryptoKey 2),
        generateRSASignatureKeys = Inr (CryptoKey 3, CryptoKey 4),
        generateAESKey = Inl CryptoUnavailable,
        generateDHKeyPair = Inr (CryptoKey 5, CryptoKey 6)\<rparr>" "[]" "[]" "Some ''s1''" "\<lambda>j. 1000"]
  by (simp add: some_generator_fails_def generated_suffixes_def session_id_of_def insert_commute)

text \<open>
  C4 as stated fails: when the second generation fails, the call fails and the first
  sub-key stays in the store.
\<close>

theorem createSession_rollback_counterexample:
  "createSession ([], [])
     \<lparr>generateRSAEncryptionKeys = Inr (CryptoKey 1, CryptoKey 2),
      generateRSASignatureKeys = Inl CryptoUnavailable,
      generateAESKey = Inr (CryptoKey 3),
      generateDHKeyPair = Inr (CryptoKey 4, CryptoKey 5)\<rparr>
     (Some ''s1'') (\<lambda>j. 1000)
   = (Inl CryptoUnavailable,
      ([(''s1-rsa-enc'',
         \<lparr>id_key = ''s1-rsa-enc'', type_key = RSA_ENCRYPT, publicKey = Some (CryptoKey 1),
          privateKey = Some (CryptoKey 2), symmetricKey = None, createdAt = 1000,
          expiresAt = 3601000\<rparr>)], []),
      \<lambda>j. 1000)"
  by (simp add: createSession_def generateAndStore_Some Date_now_def Let_def Map_set_def)

section \<open>Session termination\<close>

lemma Map_get_revokeIfSet:
  "Map_get (revokeIfSet keyId ks) k =
     (if keyId = Some k \<and> k \<noteq> [] then None else Map_get ks k)"
  by (cases keyId) (auto simp: revokeIfSet_def revokeKey_def Map_get_delete)

lemma terminateSession_absent:
  "Map_get ss sId = None \<Longrightarrow> terminateSession (ks, ss) sId = (False, (ks, ss))"
  by (simp add: terminateSession_def)

lemma terminateSession_present:
  "Map_get ss sId = Some session \<Longrightarrow>
   terminateSession (ks, ss) sId =
     (True,
      (revokeIfSet (ecdhKeyId session) (revokeIfSet (aesSessionKeyId session)
         (revokeIfSet (rsaSignatureKeyId session) (revokeIfSet (rsaEncryptionKeyId session) ks))),
       snd (Map_delete sId ss)))"
  by (simp add: terminateSession_def Let_def Map_delete_def Map_has_get)

text \<open>
  C7. \<open>terminateSession\<close> returns false exactly when the session is not stored. When it
  returns true on a key store with no key under the empty id, every key id of the session
  is unreachable afterwards (\<open>getKeyPair\<close> returns absent, at any time) and the session
  record is gone.
\<close>

theorem terminateSession_revokes:
  "(fst (terminateSession (ks, ss) sId) = False) = (Map_get ss sId = None)
   \<and> (\<not> Map_has ks [] \<longrightarrow> terminateSession (ks, ss) sId = (True, (ks', ss')) \<longrightarrow>
        (\<exists>session. Map_get ss sId = Some session
           \<and> (\<forall>k \<in> set (session_key_ids session). getKeyPair ks' k clk = (None, ks', clk))
           \<and> Map_get ss' sId = None))"
proof (cases "Map_get ss sId")
  case None
  then show ?thesis
    by (simp add: terminateSession_absent)
next
  case (Some session)
  have "getKeyPair ks' k clk = (None, ks', clk)"
    if "\<not> Map_has ks []" and t: "terminateSession (ks, ss) sId = (True, (ks', ss'))"
      and k: "k \<in> set (session_key_ids session)" for k
  proof -
    from t Some have ks': "ks' = revokeIfSet (ecdhKeyId session) (revokeIfSet (aesSessionKeyId session)
         (revokeIfSet (rsaSignatureKeyId session) (revokeIfSet (rsaEncryptionKeyId session) ks)))"
      by (simp add: terminateSession_present)
    from k have "rsaEncryptionKeyId session = Some k \<or> rsaSignatureKeyId session = Some k
        \<or> aesSessionKeyId session = Some k \<or> ecdhKeyId session = Some k"
      by (auto simp: session_key_ids_def split: option.splits)
    moreover from that(1) have "k = [] \<Longrightarrow> Map_get ks k = None"
      by (simp add: Map_has_get)
    ultimately have "Map_get ks' k = None"
      unfolding ks' by (auto simp: Map_get_revokeIfSet)
    then show ?thesis
      by (rule getKeyPair_absent)
  qed
  moreover have "Map_get ss' sId = None" if "terminateSession (ks, ss) sId = (True, (ks', ss'))"
    using that Some by (auto simp: terminateSession_present Map_get_delete)
  ultimately show ?thesis
    using Some by (auto simp: terminateSession_present)
qed


theorem terminateSession_revokes_witness:
  "\<exists>session.
      Map_get [(''s1'', \<lparr>sessionId = ''s1'', rsaEncryptionKeyId = Some ''s1-rsa-enc'',
                  rsaSignatureKeyId = None, aesSessionKeyId = Some ''s1-aes'', ecdhKeyId = None,
                  createdAt_s = 10, expiresAt_s = 1800010\<rparr>)] ''s1'' = Some session
    \<and> getKeyPair [] ''s1-aes'' (\<lambda>j. 20) = (None, [], \<lambda>j. 20)
    \<and> getKeyPair [] ''s1-rsa-enc'' (\<lambda>j. 20) = (None, [], \<lambda>j. 20)"
  using terminateSession_revokes [of
      "[(''s1-rsa-enc'', \<lparr>id_key = ''s1-rsa-enc'', type_key = RSA_ENCRYPT,
           publicKey = Some (CryptoKey 1), privateKey = Some (CryptoKey 2), symmetricKey = None,
           createdAt = 10, expiresAt = 3600010\<rparr>),
        (''s1-aes'', \<lparr>id_key = ''s1-aes'', type_key = AES,
           publicKey = None, privateKey = None, symmetricKey = Some (CryptoKey 3),
           createdAt = 10, expiresAt = 3600010\<rparr>)]"
      "[(''s1'', \<lparr>sessionId = ''s1'', rsaEncryptionKeyId = Some ''s1-rsa-enc'',
                  rsaSignatureKeyId = None, aesSessionKeyId = Some ''s1-aes'', ecdhKeyId = None,
                  createdAt_s = 10, expiresAt_s = 1800010\<rparr>)]"
      "''s1''" "[]" "[]" "\<lambda>j. 20"]
  by (simp add: terminateSession_def revokeIfSet_def revokeKey_def Map_delete_def Map_has_def
      Map_get_def session_key_ids_def Let_def)

text \<open>No key is ever stored under the empty id: the generators replace it by a default.\<close>

lemma generateAndStoreRSAEncryptionKeys_no_empty_id:
  "\<not> Map_has ks [] \<Longrightarrow>
   \<not> Map_has (fst (snd (generateAndStoreRSAEncryptionKeys ks g keyId clk))) []"
  by (cases keyId; cases g)
    (auto simp: generateAndStoreRSAEncryptionKeys_def Date_now_def Let_def Map_has_set)

lemma generateAndStoreRSASignatureKeys_no_empty_id:
  "\<not> Map_has ks [] \<Longrightarrow>
   \<not> Map_has (fst (snd (generateAndStoreRSASignatureKeys ks g keyId clk))) []"
  by (cases keyId; cases g)
    (auto simp: generateAndStoreRSASignatureKeys_def Date_now_def Let_def Map_has_set)

lemma generateAndStoreAESSessionKey_no_empty_id:
  "\<not> Map_has ks [] \<Longrightarrow>
   \<not> Map_has (fst (snd (generateAndStoreAESSessionKey ks g keyId clk))) []"
  by (cases keyId; cases g)
    (auto simp: generateAndStoreAESSessionKey_def Date_now_def Let_def Map_has_set)

lemma generateAndStoreECDHKeyPair_no_empty_id:
  "\<not> Map_has ks [] \<Longrightarrow>
   \<not> Map_has (fst (snd (generateAndStoreECDHKeyPair ks g keyId clk))) []"
  by (cases keyId; cases g)
    (auto simp: generateAndStoreECDHKeyPair_def Date_now_def Let_def Map_has_set)

lemma createSession_no_empty_id:
  assumes "\<not> Map_has ks []"
  shows "\<not> Map_has (fst (fst (snd (createSession (ks, ss) gen sessionIdArg clk)))) []"
proof -
  obtain g1 g2 g3 g4 where g:
    "generateRSAEncryptionKeys gen = g1" "generateRSASignatureKeys gen = g2"
    "generateAESKey gen = g3" "generateDHKeyPair gen = g4"
    by simp
  show ?thesis
    using assms
    by (cases g1; cases g2; cases g3; cases g4; cases sessionIdArg)
      (simp_all add: createSession_def generateAndStore_Some g Date_now_def Let_def Map_has_set)
qed

lemma getKeyPair_no_empty_id:
  "\<not> Map_has ks [] \<Longrightarrow> \<not> Map_has (fst (snd (getKeyPair ks k clk))) []"
  by (auto simp: getKeyPair_def Date_now_def Let_def Map_has_delete split: option.splits)

lemma terminateSession_no_empty_id:
  "\<not> Map_has ks [] \<Longrightarrow> \<not> Map_has (fst (snd (terminateSession (ks, ss) sId))) []"
  by (cases "Map_get ss sId")
    (simp_all add: terminateSession_absent terminateSession_present Map_has_get Map_get_revokeIfSet)

section \<open>Audit log: bounded, oldest first out\<close>

lemma log_step_eq:
  "log_step (svc, clk) c =
     (svc\<lparr>messageLog :=
            (if length (messageLog svc) \<ge> MAX_LOG_SIZE
             then tl (messageLog svc @ [log_entry c (clk 0)])
             else messageLog svc @ [log_entry c (clk 0)])\<rparr>,
      \<lambda>j. clk (Suc j))"
  by (simp add: log_step_def logMessage_def log_entry_def Date_now_def Let_def)

lemma log_entries_Nil: "log_entries clk [] = []"
  by (simp add: log_entries_def)

lemma log_entries_Cons:
  "log_entries clk (c # cs) = log_entry c (clk 0) # log_entries (\<lambda>j. clk (Suc j)) cs"
proof -
  have "zip (c # cs) [0..<length (c # cs)] = (c, 0) # zip cs (map Suc [0..<length cs])"
    by (simp add: upt_conv_Cons map_Suc_upt del: upt_Suc)
  then show ?thesis
    by (simp add: log_entries_def zip_map2 case_prod_unfold comp_def)
qed

lemma length_log_entries: "length (log_entries clk cs) = length cs"
  by (simp add: log_entries_def)

lemma log_run_messageLog:
  assumes "length (messageLog svc) \<le> MAX_LOG_SIZE"
  shows "messageLog (fst (log_run (svc, clk) cs))
           = drop (length (messageLog svc) + length cs - MAX_LOG_SIZE)
               (messageLog svc @ log_entries clk cs)"
  using assms
proof (induction cs arbitrary: svc clk)
  case Nil
  then show ?case
    by (simp add: log_run_def log_entries_Nil)
next
  case (Cons c cs)
  let ?L = "messageLog svc"
  let ?e = "log_entry c (clk 0)"
  let ?svc' = "fst (log_step (svc, clk) c)"
  let ?clk' = "\<lambda>j. clk (Suc j)"
  have run: "log_run (svc, clk) (c # cs) = log_run (?svc', ?clk') cs"
    by (simp add: log_run_def log_step_eq)
  show ?case
  proof (cases "length ?L = MAX_LOG_SIZE")
    case True
    then have L': "messageLog ?svc' = tl (?L @ [?e])"
      by (simp add: log_step_eq)
    have len: "length (messageLog ?svc') = MAX_LOG_SIZE"
      unfolding L' using True by simp
    have "messageLog (fst (log_run (?svc', ?clk') cs))
            = drop (length cs) (tl (?L @ [?e]) @ log_entries ?clk' cs)"
      using Cons.IH [of ?svc' ?clk'] len L' by simp
    also have "\<dots> = drop (Suc (length cs)) (?L @ ?e # log_entries ?clk' cs)"
      by (cases ?L) simp_all
    finally show ?thesis
      using True by (simp add: run log_entries_Cons)
  next
    case False
    with Cons.prems have lt: "length ?L < MAX_LOG_SIZE"
      by simp
    then have L': "messageLog ?svc' = ?L @ [?e]"
      by (simp add: log_step_eq)
    have len: "length (messageLog ?svc') \<le> MAX_LOG_SIZE"
      unfolding L' using lt by simp
    have "messageLog (fst (log_run (?svc', ?clk') cs))
            = drop (length (?L @ [?e]) + length cs - MAX_LOG_SIZE)
                ((?L @ [?e]) @ log_entries ?clk' cs)"
      using Cons.IH [of ?svc' ?clk'] len L' by simp
    then show ?thesis
      by (simp add: run log_entries_Cons)
  qed
qed

lemma log_run_new:
  "messageLog (fst (log_run (newCommunicationService, clk) cs))
     = drop (length cs - MAX_LOG_SIZE) (log_entries clk cs)"
  using log_run_messageLog [of newCommunicationService clk cs]
  by (simp add: newCommunicationService_def)

text \<open>
  C9. After any history of \<open>logMessage\<close> calls on a new service the audit log holds at
  most 1000 entries: the last 1000 of the history, in order. After 1001 calls it holds
  the entries 2 to 1001: the last one is the 1001st, and the first inserted entry is
  not in the log (as a value, when the message ids of the history are distinct).
\<close>

theorem messageLog_bounded_fifo:
  "length (messageLog (fst (log_run (newCommunicationService, clk) cs))) \<le> 1000
   \<and> messageLog (fst (log_run (newCommunicationService, clk) cs))
       = drop (length cs - 1000) (log_entries clk cs)
   \<and> (length cs = 1001 \<longrightarrow>
        messageLog (fst (log_run (newCommunicationService, clk) cs)) = tl (log_entries clk cs)
        \<and> last (messageLog (fst (log_run (newCommunicationService, clk) cs)))
            = log_entry (cs ! 1000) (clk 1000)
        \<and> (distinct (map call_id cs) \<longrightarrow>
             log_entry (cs ! 0) (clk 0)
               \<notin> set (messageLog (fst (log_run (newCommunicationService, clk) cs)))))"
proof -
  let ?log = "messageLog (fst (log_run (newCommunicationService, clk) cs))"
  have eq: "?log = drop (length cs - 1000) (log_entries clk cs)"
    using log_run_new [of clk cs] by (simp add: MAX_LOG_SIZE_def)
  then have bound: "length ?log \<le> 1000"
    by (simp add: length_log_entries)
  have nth: "log_entries clk cs ! k = log_entry (cs ! k) (clk k)" if "k < length cs" for k
    using that by (simp add: log_entries_def)
  have fifo: "?log = tl (log_entries clk cs)
        \<and> last ?log = log_entry (cs ! 1000) (clk 1000)
        \<and> (distinct (map call_id cs) \<longrightarrow> log_entry (cs ! 0) (clk 0) \<notin> set ?log)"
    if len: "length cs = 1001"
  proof -
    from eq len have tl: "?log = tl (log_entries clk cs)"
      by (simp add: drop_Suc)
    have "?log \<noteq> []"
      using eq len by (simp add: length_log_entries)
    then have "last ?log = last (log_entries clk cs)"
      unfolding eq by simp
    also have "\<dots> = log_entries clk cs ! 1000"
      using len by (simp add: last_conv_nth length_log_entries flip: length_0_conv)
    finally have last: "last ?log = log_entry (cs ! 1000) (clk 1000)"
      using len by (simp add: nth)
    have absent: "log_entry (cs ! 0) (clk 0) \<notin> set ?log" if d: "distinct (map call_id cs)"
    proof
      assume "log_entry (cs ! 0) (clk 0) \<in> set ?log"
      then obtain k where k: "k < length ?log" and "?log ! k = log_entry (cs ! 0) (clk 0)"
        by (auto simp: in_set_conv_nth)
      then have "log_entries clk cs ! (Suc k) = log_entry (cs ! 0) (clk 0)"
        using len by (simp add: eq length_log_entries)
      moreover have sk: "Suc k < length cs"
        using k len by (simp add: eq length_log_entries)
      ultimately have "log_entry (cs ! Suc k) (clk (Suc k)) = log_entry (cs ! 0) (clk 0)"
        by (simp add: nth)
      moreover from sk have z: "0 < length cs"
        by (cases cs) simp_all
      ultimately have "map call_id cs ! Suc k = map call_id cs ! 0"
        using sk by (simp add: log_entry_def)
      moreover from d have "(map call_id cs ! Suc k = map call_id cs ! 0) = (Suc k = 0)"
        by (rule nth_eq_iff_index_eq) (use sk z in simp_all)
      ultimately show False
        by simp
    qed
    from tl last absent show ?thesis
      by blast
  qed
  from eq bound fifo show ?thesis
    by blast
qed


theorem messageLog_bounded_fifo_witness:
  "length (messageLog (fst (log_run (newCommunicationService, \<lambda>j. int j)
      (map (\<lambda>i. \<lparr>call_id = replicate i CHR ''x'', call_sender = ''a'', call_receiver = ''b'',
                   call_hash = ''00'', call_attacks = None\<rparr>) [0..<1001])))) \<le> 1000
   \<and> last (messageLog (fst (log_run (newCommunicationService, \<lambda>j. int j)
      (map (\<lambda>i. \<lparr>call_id = replicate i CHR ''x'', call_sender = ''a'', call_receiver = ''b'',
                   call_hash = ''00'', call_attacks = None\<rparr>) [0..<1001]))))
       = log_entry
           (map (\<lambda>i. \<lparr>call_id = replicate i CHR ''x'', call_sender = ''a'', call_receiver = ''b'',
                   call_hash = ''00'', call_attacks = None\<rparr>) [0..<1001] ! 1000) 1000
   \<and> log_entry
         (map (\<lambda>i. \<lparr>call_id = replicate i CHR ''x'', call_sender = ''a'', call_receiver = ''b'',
                   call_hash = ''00'', call_attacks = None\<rparr>) [0..<1001] ! 0) 0
       \<notin> set (messageLog (fst (log_run (newCommunicationService, \<lambda>j. int j)
      (map (\<lambda>i. \<lparr>call_id = replicate i CHR ''x'', call_sender = ''a'', call_receiver = ''b'',
                   call_hash = ''00'', call_attacks = None\<rparr>) [0..<1001]))))"
proof -
  let ?cs = "map (\<lambda>i. \<lparr>call_id = replicate i CHR ''x'', call_sender = ''a'', call_receiver = ''b'',
                   call_hash = ''00'', call_attacks = None\<rparr>) [0..<1001]"
  have len: "length ?cs = 1001"
    by simp
  have dist: "distinct (map call_id ?cs)"
    by (simp add: distinct_map comp_def inj_on_def)
  have t0: "int 0 = 0" and t1: "int 1000 = 1000"
    by simp_all
  from messageLog_bounded_fifo [of "\<lambda>j. int j" ?cs] len dist show ?thesis
    unfolding t0 t1 by blast
qed

section \<open>Request handlers: when the nonce is marked\<close>

lemma fst_markNonceUsed_clock:
  "c 0 = c' 0 \<Longrightarrow> fst (markNonceUsed l n c) = fst (markNonceUsed l n c')"
  by (simp add: markNonceUsed_def Date_now_def Let_def split: option.splits)

lemma POST_verify_ledger:
  "fst (snd (POST_verify ledger (Inr req) clk)) =
     (if replayEnabled req \<and> isReplay ledger (nonce_req req) then ledger
      else fst (markNonceUsed ledger (nonce_req req) clk))"
  by (cases "replayEnabled req"; cases "isReplay ledger (nonce_req req)")
    (simp_all add: POST_verify_def Let_def split_def)

lemma POST_verify_replaySafe:
  "replaySafe (snd (fst (POST_verify ledger (Inr req) clk)))
     = (\<not> (replayEnabled req \<and> isReplay ledger (nonce_req req)))"
  by (cases "replayEnabled req"; cases "isReplay ledger (nonce_req req)")
    (simp_all add: POST_verify_def Let_def split_def)

lemma POST_relay_replay:
  assumes "replay (attackOptions req) \<and> isReplay ledger (nonce_msg (payload req))"
  shows "fst (fst (POST_relay tampered hexPrefix (ledger, svc) (Inr req) clk)) = 409"
    and "fst (fst (snd (POST_relay tampered hexPrefix (ledger, svc) (Inr req) clk))) = ledger"
  using assms
  by (cases "replay (attackOptions req)"; cases "isReplay ledger (nonce_msg (payload req))";
      simp add: POST_relay_def Let_def split_def)+

lemma POST_relay_no_replay:
  assumes "\<not> (replay (attackOptions req) \<and> isReplay ledger (nonce_msg (payload req)))"
  shows "fst (fst (POST_relay tampered hexPrefix (ledger, svc) (Inr req) clk)) = 200"
    and "fst (fst (snd (POST_relay tampered hexPrefix (ledger, svc) (Inr req) clk)))
           = fst (markNonceUsed ledger (nonce_msg (payload req))
                   (\<lambda>j. clk (j + readings_before_mark req)))"
proof -
  show "fst (fst (POST_relay tampered hexPrefix (ledger, svc) (Inr req) clk)) = 200"
    using assms
    by (cases "replay (attackOptions req)"; cases "isReplay ledger (nonce_msg (payload req))";
        cases "tamper (attackOptions req)"; cases "encryptedData (payload req) = []";
        cases "mitm (attackOptions req)")
      (simp_all add: POST_relay_def Let_def split_def)
  show "fst (fst (snd (POST_relay tampered hexPrefix (ledger, svc) (Inr req) clk)))
           = fst (markNonceUsed ledger (nonce_msg (payload req))
                   (\<lambda>j. clk (j + readings_before_mark req)))"
    using assms
    by (cases "replay (attackOptions req)"; cases "isReplay ledger (nonce_msg (payload req))";
        cases "tamper (attackOptions req)"; cases "encryptedData (payload req) = []";
        cases "mitm (attackOptions req)")
      (simp_all add: POST_relay_def Let_def split_def readings_before_mark_def
        logAttackAttempt_def logMessage_def Date_now_def)
qed


text \<open>
  C6, as the code has it. For a request that parses, both handlers mark the nonce
  exactly when no replay is detected for the presentation: the verify handler when
  replay checking is off or \<open>isReplay\<close> answers false, the relay handler likewise, after
  the readings of the clock it has made until then. When a replay is detected the
  ledger stays as it was; the verify handler reports \<open>replaySafe = false\<close> and the relay
  handler answers 409.
\<close>

theorem handlers_mark_unless_replay:
  "fst (snd (POST_verify ledger (Inr vreq) clk)) =
     (if replayEnabled vreq \<and> isReplay ledger (nonce_req vreq) then ledger
      else fst (markNonceUsed ledger (nonce_req vreq) clk))
   \<and> replaySafe (snd (fst (POST_verify ledger (Inr vreq) clk)))
       = (\<not> (replayEnabled vreq \<and> isReplay ledger (nonce_req vreq)))
   \<and> fst (fst (snd (POST_relay tampered hexPrefix (ledger, svc) (Inr rreq) clk'))) =
     (if replay (attackOptions rreq) \<and> isReplay ledger (nonce_msg (payload rreq)) then ledger
      else fst (markNonceUsed ledger (nonce_msg (payload rreq))
                  (\<lambda>j. clk' (j + readings_before_mark rreq))))
   \<and> fst (fst (POST_relay tampered hexPrefix (ledger, svc) (Inr rreq) clk')) =
     (if replay (attackOptions rreq) \<and> isReplay ledger (nonce_msg (payload rreq)) then 409
      else 200)"
proof (cases "replay (attackOptions rreq) \<and> isReplay ledger (nonce_msg (payload rreq))")
  case True
  then show ?thesis
    using POST_relay_replay [OF True, of tampered hexPrefix svc clk']
    by (simp add: POST_verify_ledger POST_verify_replaySafe)
next
  case False
  then show ?thesis
    using POST_relay_no_replay [OF False, of tampered hexPrefix svc clk']
    by (auto simp: POST_verify_ledger POST_verify_replaySafe)
qed

theorem handlers_mark_unless_replay_witness:
  "fst (snd (POST_verify [(''n1'', \<lparr>nonce = ''n1'', usedAt = 10, count = 1\<rparr>)]
      (Inr \<lparr>nonce_req = ''n2'', integrity_req = True, authentication_req = True,
            replayEnabled = True, signatureValid_req = None, freshnessValid_req = None\<rparr>)
      (\<lambda>j. 50)))
     = [(''n1'', \<lparr>nonce = ''n1'', usedAt = 10, count = 1\<rparr>),
        (''n2'', \<lparr>nonce = ''n2'', usedAt = 50, count = 1\<rparr>)]"
  using handlers_mark_unless_replay [of "[(''n1'', \<lparr>nonce = ''n1'', usedAt = 10, count = 1\<rparr>)]"
      "\<lparr>nonce_req = ''n2'', integrity_req = True, authentication_req = True,
            replayEnabled = True, signatureValid_req = None, freshnessValid_req = None\<rparr>"
      "\<lambda>j. 50"]
  by (simp add: isReplay_def markNonceUsed_def Map_get_def Map_set_def Date_now_def)

text \<open>
  C6 as stated fails: a nonce used once and presented again with replay checking on
  is detected as a replay by both handlers, and neither marks it: its record keeps
  \<open>count = 1\<close>, where a call of \<open>markNonceUsed\<close> would have made it 2.
\<close>

theorem replayed_presentation_not_marked_counterexample:
  "isReplay [(''n1'', \<lparr>nonce = ''n1'', usedAt = 10, count = 1\<rparr>)] ''n1''
   \<and> fst (snd (POST_verify [(''n1'', \<lparr>nonce = ''n1'', usedAt = 10, count = 1\<rparr>)]
        (Inr \<lparr>nonce_req = ''n1'', integrity_req = True, authentication_req = True,
              replayEnabled = True, signatureValid_req = None, freshnessValid_req = None\<rparr>)
        (\<lambda>j. 50)))
       = [(''n1'', \<lparr>nonce = ''n1'', usedAt = 10, count = 1\<rparr>)]
   \<and> fst (fst (snd (POST_relay (\<lambda>s. s) (\<lambda>s. s)
        ([(''n1'', \<lparr>nonce = ''n1'', usedAt = 10, count = 1\<rparr>)], newCommunicationService)
        (Inr \<lparr>payload = \<lparr>encryptedData = ''QUJD'', iv = ''AAAA'', nonce_msg = ''n1'',
                          timestamp_msg = 40, encryptionMethod = Aes, mac = None,
                          signature = None\<rparr>,
              attackOptions = \<lparr>tamper = False, replay = True, mitm = False,
                                bruteForce = None\<rparr>\<rparr>)
        (\<lambda>j. 50))))
       = [(''n1'', \<lparr>nonce = ''n1'', usedAt = 10, count = 1\<rparr>)]
   \<and> fst (markNonceUsed [(''n1'', \<lparr>nonce = ''n1'', usedAt = 10, count = 1\<rparr>)] ''n1'' (\<lambda>j. 50))
       = [(''n1'', \<lparr>nonce = ''n1'', usedAt = 50, count = 2\<rparr>)]"
  by (simp add: POST_verify_def POST_relay_def isReplay_def markNonceUsed_def Map_get_def
      Map_set_def Date_now_def Let_def logAttackAttempt_def logMessage_def)

end
